theory Spec2Isabelle
  imports Complex_Main
begin

section \<open>Python values used by \<open>utils/data_augment.py\<close>\<close>

text \<open>
  Exceptions are values. \<open>RuntimeError\<close> carries the fixed part of the message the
  source formats; the spec calls the first message \<open>UnsupportedTypeError\<close> and the
  second \<open>InvalidDimensionError\<close>.
\<close>

datatype error =
    RuntimeError string
  | NameError string
  | UnboundLocalError string
  | AttributeError string
  | IndexError string
  | ValueError string
  | OverflowError string
  | ZeroDivisionError string
  | LibraryError string

definition UnsupportedTypeError :: error where
  "UnsupportedTypeError = RuntimeError ''invalid image type''"


definition bindR :: "error + 'a \<Rightarrow> ('a \<Rightarrow> error + 'b) \<Rightarrow> error + 'b" where
  "bindR m f = (case m of Inl e \<Rightarrow> Inl e | Inr x \<Rightarrow> f x)"

text \<open>
  A numpy array. Ranks 2 and 3 are kept as rows of pixels together with the lengths of
  the axes after the first, so that an array with no rows still has its shape
  \<open>(0, w)\<close> or \<open>(0, w, c)\<close>. No function of the module reads an element of an array of
  another rank: rank 0 and rank 1 are kept whole, and \<open>ArrayN h w c d rest\<close> stands for
  an array of shape \<open>(h, w, c, d, ...)\<close>, of rank \<open>4 + length rest\<close>.
\<close>

datatype 'a ndarray =
    Array0 'a
  | Array1 "'a list"
  | Array2 nat "'a list list"
  | Array3 nat nat "'a list list list"
  | ArrayN nat nat nat nat "nat list"

fun ndim :: "'a ndarray \<Rightarrow> nat" where
  "ndim (Array0 x) = 0"
| "ndim (Array1 xs) = 1"
| "ndim (Array2 w rows) = 2"
| "ndim (Array3 w c rows) = 3"
| "ndim (ArrayN h w c d rest) = 4 + length rest"

text \<open>The leading axes of \<open>data.shape\<close> that the module reads (axis 0 and axis 1).\<close>

fun shape_axis :: "'a ndarray \<Rightarrow> nat \<Rightarrow> error + int" where
  "shape_axis (Array0 x) k = Inl (IndexError ''tuple index out of range'')"
| "shape_axis (Array1 xs) k =
     (if k = 0 then Inr (int (length xs)) else Inl (IndexError ''tuple index out of range''))"
| "shape_axis (Array2 w rows) k =
     (if k = 0 then Inr (int (length rows)) else if k = 1 then Inr (int w)
      else Inl (IndexError ''tuple index out of range''))"
| "shape_axis (Array3 w c rows) k =
     (if k = 0 then Inr (int (length rows)) else if k = 1 then Inr (int w)
      else if k = 2 then Inr (int c) else Inl (IndexError ''tuple index out of range''))"
| "shape_axis (ArrayN h w c d rest) k =
     (if k < 4 + length rest then Inr (int ((h # w # c # d # rest) ! k))
      else Inl (IndexError ''tuple index out of range''))"

text \<open>
  An array is well formed when every row has the stated width and, at rank 3, every
  pixel the stated number of channels.
\<close>

fun wf_array :: "'a ndarray \<Rightarrow> bool" where
  "wf_array (Array2 w rows) = list_all (\<lambda>r. length r = w) rows"
| "wf_array (Array3 w c rows) =
     list_all (\<lambda>r. length r = w \<and> list_all (\<lambda>p. length p = c) r) rows"
| "wf_array a = True"

text \<open>
  The objects a caller can pass as an image: a numpy array, a PIL image (its width and
  its rows of pixels), a torch tensor, \<open>None\<close>, or any other object.
\<close>

datatype 'a pyobj =
    NDArray "'a ndarray"
  | PILImage nat "'a list list"
  | TorchTensor "'a ndarray"
  | PyNone
  | PyObject

text \<open>\<open>crop_size\<close> is a tuple \<open>(crop_h, crop_w)\<close> or one scalar for a square crop.\<close>

datatype crop_size = Scalar int | Tuple int int

fun crop_hw :: "crop_size \<Rightarrow> int \<times> int" where
  "crop_hw (Tuple crop_height crop_width) = (crop_height, crop_width)"
| "crop_hw (Scalar s) = (s, s)"

section \<open>Python slicing\<close>

text \<open>
  \<open>xs[lo:hi]\<close> on a sequence of length \<open>n\<close>: a negative bound counts from the end, and
  every bound is clipped to \<open>0..n\<close>; an empty or reversed window gives the empty
  sequence.
\<close>

definition slice_bound :: "int \<Rightarrow> nat \<Rightarrow> nat" where
  "slice_bound i n = (if i < 0 then nat (i + int n) else min (nat i) n)"

definition slice_len :: "int \<Rightarrow> int \<Rightarrow> nat \<Rightarrow> nat" where
  "slice_len lo hi n = slice_bound hi n - slice_bound lo n"

definition py_slice :: "int \<Rightarrow> int \<Rightarrow> 'a list \<Rightarrow> 'a list" where
  "py_slice lo hi xs =
     take (slice_bound hi (length xs) - slice_bound lo (length xs))
       (drop (slice_bound lo (length xs)) xs)"

text \<open>\<open>img[a:b, c:d]\<close> and \<open>img[a:b, c:d, :]\<close> on a numpy array.\<close>

fun index2 :: "'a ndarray \<Rightarrow> int \<Rightarrow> int \<Rightarrow> int \<Rightarrow> int \<Rightarrow> error + 'a ndarray" where
  "index2 (Array2 w rows) a b c d =
     Inr (Array2 (slice_len c d w) (map (py_slice c d) (py_slice a b rows)))"
| "index2 (Array3 w ch rows) a b c d =
     Inr (Array3 (slice_len c d w) ch (map (py_slice c d) (py_slice a b rows)))"
| "index2 (ArrayN h w ch dd rest) a b c d =
     Inr (ArrayN (slice_len a b h) (slice_len c d w) ch dd rest)"
| "index2 arr a b c d = Inl (IndexError ''too many indices for array'')"

fun index3 :: "'a ndarray \<Rightarrow> int \<Rightarrow> int \<Rightarrow> int \<Rightarrow> int \<Rightarrow> error + 'a ndarray" where
  "index3 (Array3 w ch rows) a b c d =
     Inr (Array3 (slice_len c d w) ch (map (py_slice c d) (py_slice a b rows)))"
| "index3 (ArrayN h w ch dd rest) a b c d =
     Inr (ArrayN (slice_len a b h) (slice_len c d w) ch dd rest)"
| "index3 arr a b c d = Inl (IndexError ''too many indices for array'')"

section \<open>\<open>crop_img\<close>\<close>

text \<open>
  The names bound at module level: the four imports and the five functions. \<open>torch\<close> is
  not among them, so evaluating \<open>torch.is_tensor(img)\<close> raises \<open>NameError\<close>.
\<close>

definition module_globals :: "string list" where
  "module_globals =
     [''os'', ''random'', ''imageio'', ''np'', ''get_subset_views'',
      ''get_random_crop_offsets'', ''pad_width_or_height'', ''crop_img'', ''scale_crop'']"

text \<open>Lines 90 to 95: the rank of the image, by its type.\<close>

definition img_dim :: "'a pyobj \<Rightarrow> error + nat" where
  "img_dim img =
     (case img of
        NDArray a \<Rightarrow> Inr (ndim a)
      | _ \<Rightarrow>
          if ''torch'' \<notin> set module_globals then Inl (NameError ''torch'')
          else (case img of
                  TorchTensor t \<Rightarrow> Inr (ndim t)
                | _ \<Rightarrow> Inl (RuntimeError ''invalid image type'')))"

text \<open>The two slicing expressions of lines 104 to 108, on an image object.\<close>

fun slice_img :: "bool \<Rightarrow> 'a pyobj \<Rightarrow> int \<Rightarrow> int \<Rightarrow> int \<Rightarrow> int \<Rightarrow> error + 'a pyobj" where
  "slice_img with_colon (NDArray a) h1 h2 w1 w2 =
     bindR (if with_colon then index3 a h1 h2 w1 w2 else index2 a h1 h2 w1 w2)
       (\<lambda>r. Inr (NDArray r))"
| "slice_img with_colon (TorchTensor a) h1 h2 w1 w2 =
     bindR (if with_colon then index3 a h1 h2 w1 w2 else index2 a h1 h2 w1 w2)
       (\<lambda>r. Inr (TorchTensor r))"
| "slice_img with_colon obj h1 h2 w1 w2 = Inl (LibraryError ''object is not subscriptable'')"

text \<open>
  \<open>crop_img\<close>. After the rank is found, rank 3 and rank 2 are sliced; for any other
  rank neither branch is taken and the function ends without a \<open>return\<close>, which in
  Python returns \<open>None\<close>.
\<close>

definition crop_img :: "'a pyobj \<Rightarrow> crop_size \<Rightarrow> int \<Rightarrow> int \<Rightarrow> error + 'a pyobj" where
  "crop_img img crop_size h_offset w_offset =
     bindR (img_dim img) (\<lambda>dim.
       case crop_hw crop_size of (crop_height, crop_width) \<Rightarrow>
         if dim = 3 then
           slice_img True img h_offset (h_offset + crop_height) w_offset (w_offset + crop_width)
         else if dim = 2 then
           slice_img False img h_offset (h_offset + crop_height) w_offset (w_offset + crop_width)
         else Inr PyNone)"

section \<open>Floating point\<close>

text \<open>
  A Python \<open>float\<close> and a \<open>float64\<close> of numpy are IEEE 754 binary64 numbers. A
  finite one is kept as the real number it denotes (the two zeros are one value), and
  the infinities and NaN are kept as the one value \<open>NonFinite\<close>: the module never tells
  them apart.
\<close>

datatype f64 = Finite real | NonFinite

text \<open>
  Rounding to the nearest integer, a tie to the even one.
\<close>

definition rne :: "real \<Rightarrow> int" where
  "rne y = (let f = \<lfloor>y\<rfloor> in
     if y - of_int f < 1 / 2 then f
     else if 1 / 2 < y - of_int f then f + 1
     else if even f then f else f + 1)"

text \<open>
  \<open>rnd64 x\<close> is the binary64 number nearest to the real \<open>x\<close>, a tie to the one with
  an even significand. Around \<open>x\<close>, with \<open>2 ^ e \<le> |x| < 2 ^ (e + 1)\<close>, the binary64
  numbers are the multiples of \<open>2 ^ (e - 52)\<close> (53 significant bits), and the multiples
  of \<open>2 ^ (-1074)\<close> when \<open>x\<close> is in the subnormal range. A result of magnitude
  \<open>2 ^ 1024\<close> is out of range.
\<close>

definition ulp_exponent :: "real \<Rightarrow> int" where
  "ulp_exponent x = max (\<lfloor>log 2 \<bar>x\<bar>\<rfloor> - 52) (- 1074)"

definition rnd64 :: "real \<Rightarrow> f64" where
  "rnd64 x =
     (if x = 0 then Finite 0
      else let u = 2 powr real_of_int (ulp_exponent x);
               r = real_of_int (rne (x / u)) * u
           in if 2 ^ 1024 \<le> \<bar>r\<bar> then NonFinite else Finite r)"

text \<open>
  The product and the sum of two floats are the exact results, rounded; an operation on
  an infinity or a NaN gives an infinity or a NaN.
\<close>

fun fmul :: "f64 \<Rightarrow> f64 \<Rightarrow> f64" where
  "fmul (Finite x) (Finite y) = rnd64 (x * y)"
| "fmul a b = NonFinite"

fun fadd :: "f64 \<Rightarrow> f64 \<Rightarrow> f64" where
  "fadd (Finite x) (Finite y) = rnd64 (x + y)"
| "fadd a b = NonFinite"

text \<open>
  \<open>float(n)\<close> and \<open>a / b\<close> on Python integers: both are correctly rounded, and raise
  \<open>OverflowError\<close> when the result is out of the range of a float.
\<close>

definition float_of_int :: "int \<Rightarrow> error + f64" where
  "float_of_int n =
     (case rnd64 (real_of_int n) of
        NonFinite \<Rightarrow> Inl (OverflowError ''int too large to convert to float'')
      | Finite r \<Rightarrow> Inr (Finite r))"

definition int_truediv :: "int \<Rightarrow> int \<Rightarrow> error + f64" where
  "int_truediv a b =
     (if b = 0 then Inl (ZeroDivisionError ''division by zero'')
      else case rnd64 (real_of_int a / real_of_int b) of
        NonFinite \<Rightarrow> Inl (OverflowError ''integer division result too large for a float'')
      | Finite q \<Rightarrow> Inr (Finite q))"

text \<open>
  \<open>np.floor\<close> on a float, and \<open>int(x)\<close>, which truncates towards zero and raises on
  an infinity or a NaN.
\<close>

fun np_floor :: "f64 \<Rightarrow> f64" where
  "np_floor (Finite x) = Finite (real_of_int \<lfloor>x\<rfloor>)"
| "np_floor NonFinite = NonFinite"

fun int_of_float :: "f64 \<Rightarrow> error + int" where
  "int_of_float (Finite x) = Inr (if 0 \<le> x then \<lfloor>x\<rfloor> else \<lceil>x\<rceil>)"
| "int_of_float NonFinite = Inl (OverflowError ''cannot convert float infinity to integer'')"

section \<open>\<open>pad_width_or_height\<close>\<close>

text \<open>
  Arrays and images are lists of any length: the limits that numpy and PIL put on the
  size of an array or of an image are not modelled.

  \<open>np.pad(xs, (before, after), 'constant', constant_values=v)\<close> along one axis.
\<close>

definition pad_axis :: "nat \<Rightarrow> nat \<Rightarrow> 'x \<Rightarrow> 'x list \<Rightarrow> 'x list" where
  "pad_axis before after v xs = replicate before v @ xs @ replicate after v"

text \<open>
  The call of line 69, with a pair of amounts for each of two axes: numpy refuses a
  negative amount, and refuses two pairs for an array whose rank is not 2.
\<close>

fun np_pad2 :: "'a ndarray \<Rightarrow> int \<times> int \<Rightarrow> int \<times> int \<Rightarrow> 'a \<Rightarrow> error + 'a ndarray" where
  "np_pad2 arr (p_top, p_bottom) (p_left, p_right) v =
     (if p_top < 0 \<or> p_bottom < 0 \<or> p_left < 0 \<or> p_right < 0 then
        Inl (ValueError ''index can not contain negative values'')
      else case arr of
        Array2 w rows \<Rightarrow>
          Inr (Array2 (nat p_left + w + nat p_right)
            (pad_axis (nat p_top) (nat p_bottom) (replicate (nat p_left + w + nat p_right) v)
               (map (pad_axis (nat p_left) (nat p_right) v) rows)))
      | _ \<Rightarrow> Inl (ValueError ''operands could not be broadcast together''))"

text \<open>The call of line 67, with a pair of amounts for each of three axes.\<close>

fun np_pad3 ::
  "'a ndarray \<Rightarrow> int \<times> int \<Rightarrow> int \<times> int \<Rightarrow> int \<times> int \<Rightarrow> 'a \<Rightarrow> error + 'a ndarray" where
  "np_pad3 arr (p_top, p_bottom) (p_left, p_right) (c_before, c_after) v =
     (if p_top < 0 \<or> p_bottom < 0 \<or> p_left < 0 \<or> p_right < 0 \<or> c_before < 0 \<or> c_after < 0 then
        Inl (ValueError ''index can not contain negative values'')
      else case arr of
        Array3 w c rows \<Rightarrow>
          (let c' = nat c_before + c + nat c_after;
               w' = nat p_left + w + nat p_right
           in Inr (Array3 w' c'
                (pad_axis (nat p_top) (nat p_bottom) (replicate w' (replicate c' v))
                   (map (\<lambda>r. pad_axis (nat p_left) (nat p_right) (replicate c' v)
                              (map (pad_axis (nat c_before) (nat c_after) v) r)) rows))))
      | _ \<Rightarrow> Inl (ValueError ''operands could not be broadcast together''))"

text \<open>
  \<open>transforms.Pad((left, top, right, bottom))(data)\<close> on a PIL image: the border is
  filled with the default \<open>fill=0\<close>, whatever \<open>pad_value\<close> is. The four amounts are
  never negative where the module calls it.
\<close>

definition transforms_Pad :: "int \<Rightarrow> int \<Rightarrow> int \<Rightarrow> int \<Rightarrow> nat \<Rightarrow> 'a::zero list list \<Rightarrow> 'a pyobj" where
  "transforms_Pad p_left p_top p_right p_bottom w rows =
     PILImage (nat p_left + w + nat p_right)
       (pad_axis (nat p_top) (nat p_bottom) (replicate (nat p_left + w + nat p_right) 0)
          (map (pad_axis (nat p_left) (nat p_right) 0) rows))"

text \<open>
  Lines 50 to 55: height, width and \<open>with_channel\<close>. For an object that is neither a
  numpy array nor a PIL image no branch runs and the three names stay unbound.
\<close>

definition data_size :: "'a pyobj \<Rightarrow> error + (int \<times> int \<times> bool) option" where
  "data_size data =
     (case data of
        NDArray a \<Rightarrow>
          bindR (shape_axis a 0) (\<lambda>height.
          bindR (shape_axis a 1) (\<lambda>width. Inr (Some (height, width, ndim a = 3))))
      | PILImage w rows \<Rightarrow> Inr (Some (int (length rows), int w, False))
      | _ \<Rightarrow> Inr None)"

text \<open>
  Lines 57 to 63 for one axis: the amounts before and after. The shortfall is a Python
  integer; \<open>shortfall / 2\<close> is a float, \<open>np.floor\<close> of it is a float, and \<open>int\<close> of
  that is the amount before. The amount after is computed on integers.
\<close>

definition pad_split :: "int \<Rightarrow> int \<Rightarrow> error + (int \<times> int)" where
  "pad_split extent output_extent =
     (if extent < output_extent then
        bindR (int_truediv (output_extent - extent) 2) (\<lambda>half.
        bindR (int_of_float (np_floor half)) (\<lambda>before.
          Inr (before, (output_extent - extent) - before)))
      else Inr (0, 0))"

text \<open>Lines 65 to 72: the padding itself, by the type of the data.\<close>

definition pad_data ::
  "'a::zero pyobj \<Rightarrow> bool \<Rightarrow> int \<Rightarrow> int \<Rightarrow> int \<Rightarrow> int \<Rightarrow> 'a \<Rightarrow> error + 'a pyobj" where
  "pad_data data with_channel p_top p_bottom p_left p_right pad_value =
     (case data of
        NDArray a \<Rightarrow>
          bindR (if with_channel then np_pad3 a (p_top, p_bottom) (p_left, p_right) (0, 0) pad_value
                 else np_pad2 a (p_top, p_bottom) (p_left, p_right) pad_value)
            (\<lambda>r. Inr (NDArray r))
      | PILImage w rows \<Rightarrow> Inr (transforms_Pad p_left p_top p_right p_bottom w rows)
      | _ \<Rightarrow> Inr data)"

text \<open>The result is the data alone, or the data with the four amounts.\<close>

datatype 'a pad_result = Padded "'a pyobj" | PaddedOffsets "'a pyobj" int int int int

definition pad_width_or_height ::
  "'a::zero pyobj \<Rightarrow> int \<Rightarrow> int \<Rightarrow> 'a \<Rightarrow> bool \<Rightarrow> error + 'a pad_result" where
  "pad_width_or_height data output_width output_height pad_value return_offsets =
     bindR (data_size data) (\<lambda>dims.
       case dims of
         None \<Rightarrow> Inl (UnboundLocalError ''width'')
       | Some (height, width, with_channel) \<Rightarrow>
           bindR (pad_split width output_width) (\<lambda>(p_left, p_right).
           bindR (pad_split height output_height) (\<lambda>(p_top, p_bottom).
           bindR (pad_data data with_channel p_top p_bottom p_left p_right pad_value)
             (\<lambda>data'. if return_offsets
                     then Inr (PaddedOffsets data' p_top p_bottom p_left p_right)
                     else Inr (Padded data')))))"

section \<open>\<open>get_random_crop_offsets\<close>\<close>

text \<open>
  \<open>np.random.randint(low, high)\<close> draws an \<open>int64\<close> from the discrete uniform
  distribution on \<open>low, ..., high - 1\<close>. It raises \<open>ValueError\<close> when \<open>low\<close> is below
  \<open>-2 ^ 63\<close>, when \<open>high - 1\<close> is above \<open>2 ^ 63 - 1\<close>, and when the range is empty.
  A draw is modelled by the list of its equally likely outcomes.
\<close>

definition randint :: "int \<Rightarrow> int \<Rightarrow> error + int list" where
  "randint low high =
     (if low < - (2 ^ 63) then Inl (ValueError ''low is out of bounds for int64'')
      else if 2 ^ 63 < high then Inl (ValueError ''high is out of bounds for int64'')
      else if low < high then Inr [low..high - 1]
      else Inl (ValueError ''low >= high''))"

text \<open>
  The two draws are independent: the equally likely results are all pairs of an outcome
  for \<open>w_offset\<close> (drawn first) and an outcome for \<open>h_offset\<close>, returned as
  \<open>(h_offset, w_offset)\<close>.
\<close>

definition get_random_crop_offsets :: "crop_size \<Rightarrow> int \<Rightarrow> int \<Rightarrow> error + (int \<times> int) list" where
  "get_random_crop_offsets crop_size height width =
     (case crop_hw crop_size of (crop_height, crop_width) \<Rightarrow>
        bindR (randint 0 (max 1 (width - crop_width - 1))) (\<lambda>w_offsets.
        bindR (randint 0 (max 1 (height - crop_height - 1))) (\<lambda>h_offsets.
          Inr (concat (map (\<lambda>w_offset. map (\<lambda>h_offset. (h_offset, w_offset)) h_offsets)
                 w_offsets)))))"

section \<open>\<open>scale_crop\<close>\<close>

text \<open>
  Matrices are \<open>float64\<close> arrays of rank 2: lists of rows of floats. \<open>np.eye(n)\<close> and
  the assignment \<open>M[i, j] = v\<close>.
\<close>

type_synonym matrix = "f64 list list"

definition eye :: "nat \<Rightarrow> matrix" where
  "eye n = map (\<lambda>i. map (\<lambda>j. if i = j then Finite 1 else Finite 0) [0..<n]) [0..<n]"

definition set_entry :: "matrix \<Rightarrow> nat \<Rightarrow> nat \<Rightarrow> f64 \<Rightarrow> matrix" where
  "set_entry M i j v = M[i := (M ! i)[j := v]]"

text \<open>
  \<open>A.dot(B)\<close> is numpy's, a parameter \<open>np_dot\<close> of the model: it returns the product
  or raises (when the shapes are not aligned). Each entry of the product is a sum of
  rounded products, but the order of the additions and the use of fused
  multiply-adds are left to the BLAS library numpy is built with. \<open>dot_rounded\<close> is
  the textbook loop: every product and every partial sum rounded, from left to right.
\<close>

definition dot_rounded :: "matrix \<Rightarrow> matrix \<Rightarrow> error + matrix" where
  "dot_rounded A B =
     (if \<exists>r \<in> set A. length r \<noteq> length B then Inl (ValueError ''shapes not aligned'')
      else Inr (map (\<lambda>r. map (\<lambda>col. foldl fadd (Finite 0) (map2 fmul r col)) (transpose B)) A))"

text \<open>
  The debug dumps: \<open>imageio.imsave(os.path.join(debug_root, name), ...)\<close>, run only
  when \<open>debug\<close> is set. The writer is a parameter; it returns the exception it raises,
  if any.
\<close>

definition default_debug_root :: string where
  "default_debug_root =
     ''/home/ICT2000/tli/Dropbox/DenseFaceTracking/debug/image_perturbation_with_intrinsics''"

definition path_join :: "string \<Rightarrow> string \<Rightarrow> string" where
  "path_join dir name =
     (if dir = [] \<or> last dir = CHR ''/'' then dir @ name else dir @ ''/'' @ name)"

definition debug_save ::
  "(string \<Rightarrow> 'a pyobj \<Rightarrow> error option) \<Rightarrow> bool \<Rightarrow> string option \<Rightarrow> string \<Rightarrow> 'a pyobj
     \<Rightarrow> error + unit" where
  "debug_save imsave debug debug_root name img =
     (if debug then
        (case imsave (path_join (case debug_root of None \<Rightarrow> default_debug_root | Some r \<Rightarrow> r)
                        name) img of
           Some e \<Rightarrow> Inl e
         | None \<Rightarrow> Inr ())
      else Inr ())"

text \<open>\<open>img.shape[k]\<close> on the object \<open>crop_img\<close> returned.\<close>

definition shape_at :: "'a pyobj \<Rightarrow> nat \<Rightarrow> error + int" where
  "shape_at obj k =
     (case obj of
        NDArray a \<Rightarrow> shape_axis a k
      | TorchTensor a \<Rightarrow> shape_axis a k
      | _ \<Rightarrow> Inl (AttributeError ''shape''))"

text \<open>Line 158: \<open>img.shape[0] < crop_height or img.shape[1] < crop_width\<close>.\<close>

definition smaller_than_crop :: "'a pyobj \<Rightarrow> int \<Rightarrow> int \<Rightarrow> error + bool" where
  "smaller_than_crop img crop_height crop_width =
     bindR (shape_at img 0) (\<lambda>s0.
       if s0 < crop_height then Inr True
       else bindR (shape_at img 1) (\<lambda>s1. Inr (s1 < crop_width)))"

text \<open>
  Lines 125 to 163: the image part of \<open>scale_crop\<close>, returning the image with the four
  pad amounts. \<open>rescale\<close> is skimage's function, a parameter: it is given the copy of
  the array, the factor and the channel axis, and returns an array or raises.
\<close>

definition scale_crop_image ::
  "('a::zero ndarray \<Rightarrow> real \<Rightarrow> nat option \<Rightarrow> error + 'a ndarray)
     \<Rightarrow> (string \<Rightarrow> 'a pyobj \<Rightarrow> error option)
     \<Rightarrow> 'a pyobj \<Rightarrow> crop_size \<Rightarrow> int \<Rightarrow> int \<Rightarrow> real \<Rightarrow> bool \<Rightarrow> string option
     \<Rightarrow> error + ('a pyobj \<times> int \<times> int \<times> int \<times> int)" where
  "scale_crop_image rescale imsave img crop_size h_offset w_offset scale_factor debug debug_root =
     (case img of
        NDArray a \<Rightarrow>
          (case crop_hw crop_size of (crop_height, crop_width) \<Rightarrow>
           bindR (debug_save imsave debug debug_root ''0_input.png'' img) (\<lambda>_.
           bindR (if ndim a = 3 then rescale a scale_factor (Some 2)
                  else if ndim a = 2 then rescale a scale_factor None
                  else Inl (RuntimeError ''invalid input image dimension num'')) (\<lambda>scaled.
           bindR (debug_save imsave debug debug_root ''1_scaled.png'' (NDArray scaled)) (\<lambda>_.
           bindR (crop_img (NDArray scaled) crop_size h_offset w_offset) (\<lambda>cropped.
           bindR (debug_save imsave debug debug_root ''2_cropped.png'' cropped) (\<lambda>_.
           bindR (smaller_than_crop cropped crop_height crop_width) (\<lambda>small.
           bindR (if small then
                    bindR (pad_width_or_height cropped crop_width crop_height 0 True) (\<lambda>r.
                      case r of
                        PaddedOffsets padded p_top p_bottom p_left p_right \<Rightarrow>
                          Inr (padded, p_top, p_bottom, p_left, p_right)
                      | Padded padded \<Rightarrow> Inl (ValueError ''cannot unpack''))
                  else Inr (cropped, 0, 0, 0, 0)) (\<lambda>res.
           bindR (debug_save imsave debug debug_root ''3_padded.png'' (fst res)) (\<lambda>_.
             Inr res)))))))))
      | _ \<Rightarrow> Inl (RuntimeError ''invalid image type''))"

text \<open>Lines 166 to 173: the intrinsic, when one is given.\<close>

datatype 'a scale_crop_result = ImageOnly "'a pyobj" | ImageWithK "'a pyobj" matrix

text \<open>
  \<open>scale_factor\<close> is the value of a finite Python float, stored as it is. The offsets
  and the pad amounts are Python integers: \<open>float\<close> converts them, and the product with
  \<open>-1.0\<close> is a float product. The conversions are evaluated in the order of the source,
  before the products.
\<close>

definition adjust_intrinsic ::
  "(matrix \<Rightarrow> matrix \<Rightarrow> error + matrix)
     \<Rightarrow> matrix \<Rightarrow> real \<Rightarrow> int \<Rightarrow> int \<Rightarrow> int \<Rightarrow> int \<Rightarrow> error + matrix" where
  "adjust_intrinsic np_dot K scale_factor h_offset w_offset p_left p_top =
     (let Ks = set_entry (set_entry (eye 3) 0 0 (Finite scale_factor)) 1 1 (Finite scale_factor)
      in bindR (float_of_int w_offset) (\<lambda>fw.
         bindR (float_of_int h_offset) (\<lambda>fh.
         let Kc = set_entry (set_entry (eye 3) 0 2 (fmul (Finite (- 1)) fw)) 1 2
                    (fmul (Finite (- 1)) fh)
         in bindR (float_of_int p_left) (\<lambda>fl.
            bindR (float_of_int p_top) (\<lambda>ft.
            let Kp = set_entry (set_entry (eye 3) 0 2 fl) 1 2 ft
            in bindR (np_dot Ks K) (\<lambda>m1. bindR (np_dot Kc m1) (\<lambda>m2. np_dot Kp m2)))))))"

definition scale_crop ::
  "(matrix \<Rightarrow> matrix \<Rightarrow> error + matrix)
     \<Rightarrow> ('a::zero ndarray \<Rightarrow> real \<Rightarrow> nat option \<Rightarrow> error + 'a ndarray)
     \<Rightarrow> (string \<Rightarrow> 'a pyobj \<Rightarrow> error option)
     \<Rightarrow> 'a pyobj \<Rightarrow> crop_size \<Rightarrow> int \<Rightarrow> int \<Rightarrow> real \<Rightarrow> matrix option \<Rightarrow> bool \<Rightarrow> string option
     \<Rightarrow> error + 'a scale_crop_result" where
  "scale_crop np_dot rescale imsave img crop_size h_offset w_offset scale_factor K debug
     debug_root =
     bindR (scale_crop_image rescale imsave img crop_size h_offset w_offset scale_factor
              debug debug_root)
       (\<lambda>(img', p_top, p_bottom, p_left, p_right).
          case K of
            Some k \<Rightarrow>
              bindR (adjust_intrinsic np_dot k scale_factor h_offset w_offset p_left p_top)
                (\<lambda>K_aug. Inr (ImageWithK img' K_aug))
          | None \<Rightarrow> Inr (ImageOnly img'))"

text \<open>The image of a result of \<open>scale_crop\<close>, with or without the intrinsic.\<close>

fun result_image :: "'a scale_crop_result \<Rightarrow> 'a pyobj" where
  "result_image (ImageOnly img) = img"
| "result_image (ImageWithK img K_aug) = img"

text \<open>
  The intrinsic as the specification states it. The three elementary matrices, written
  out over the reals: the scale on the first two diagonal entries, the crop translation
  by \<open>(-w_offset, -h_offset)\<close> and the pad translation by \<open>(p_left, p_top)\<close> in the last
  column of the first two rows; the product of two 3 by 3 real matrices, entry by entry;
  and the float matrix whose entries denote the entries of a real matrix.
\<close>

type_synonym real_matrix = "real list list"

definition spec_Ks :: "real \<Rightarrow> real_matrix" where
  "spec_Ks scale_factor = [[scale_factor, 0, 0], [0, scale_factor, 0], [0, 0, 1]]"

definition spec_Kc :: "int \<Rightarrow> int \<Rightarrow> real_matrix" where
  "spec_Kc w_offset h_offset =
     [[1, 0, - real_of_int w_offset], [0, 1, - real_of_int h_offset], [0, 0, 1]]"

definition spec_Kp :: "int \<Rightarrow> int \<Rightarrow> real_matrix" where
  "spec_Kp p_left p_top = [[1, 0, real_of_int p_left], [0, 1, real_of_int p_top], [0, 0, 1]]"

definition spec_matmul :: "real_matrix \<Rightarrow> real_matrix \<Rightarrow> real_matrix" where
  "spec_matmul A B =
     map (\<lambda>i. map (\<lambda>j. A ! i ! 0 * B ! 0 ! j + A ! i ! 1 * B ! 1 ! j + A ! i ! 2 * B ! 2 ! j)
                [0, 1, 2])
       [0, 1, 2]"

definition is_3x3 :: "'x list list \<Rightarrow> bool" where
  "is_3x3 K \<longleftrightarrow> length K = 3 \<and> list_all (\<lambda>r. length r = 3) K"

definition floats :: "real_matrix \<Rightarrow> matrix" where
  "floats A = map (map Finite) A"

text \<open>
  Whatever the order of the additions and with or without fused multiply-adds, a
  product of 3 by 3 matrices is computed without any rounding when every product of two
  entries is an integer and, for each entry of the result, the magnitudes of its three
  products sum to less than \<open>2 ^ 53\<close>: every intermediate value is then an integer of
  magnitude below \<open>2 ^ 53\<close>, which is a binary64 number. This is what is taken for granted
  of \<open>np_dot\<close> where an exact result is stated.
\<close>

definition small_integer_products :: "real_matrix \<Rightarrow> real_matrix \<Rightarrow> bool" where
  "small_integer_products A B \<longleftrightarrow>
     list_all (\<lambda>i. list_all (\<lambda>j.
         A ! i ! 0 * B ! 0 ! j \<in> \<int> \<and> A ! i ! 1 * B ! 1 ! j \<in> \<int> \<and> A ! i ! 2 * B ! 2 ! j \<in> \<int> \<and>
         \<bar>A ! i ! 0 * B ! 0 ! j\<bar> + \<bar>A ! i ! 1 * B ! 1 ! j\<bar> + \<bar>A ! i ! 2 * B ! 2 ! j\<bar> < 2 ^ 53)
       [0, 1, 2]) [0, 1, 2]"

definition dot_exact_on_integers :: "(matrix \<Rightarrow> matrix \<Rightarrow> error + matrix) \<Rightarrow> bool" where
  "dot_exact_on_integers np_dot \<longleftrightarrow>
     (\<forall>A B. is_3x3 A \<and> is_3x3 B \<and> small_integer_products A B \<longrightarrow>
        np_dot (floats A) (floats B) = Inr (floats (spec_matmul A B)))"


text \<open>Every array that \<open>rescale\<close> returns is rectangular.\<close>

definition rectangular_results ::
  "('a ndarray \<Rightarrow> real \<Rightarrow> nat option \<Rightarrow> error + 'a ndarray) \<Rightarrow> bool" where
  "rectangular_results rescale \<longleftrightarrow> (\<forall>a s ax r. rescale a s ax = Inr r \<longrightarrow> wf_array r)"

text \<open>
  skimage's \<open>rescale\<close> at \<open>scale_factor = 1\<close>, for the concrete examples below: the
  output shape is the input shape, and \<open>rescale\<close> returns a copy of the array.
\<close>

definition rescale_at_one :: "'a ndarray \<Rightarrow> real \<Rightarrow> nat option \<Rightarrow> error + 'a ndarray" where
  "rescale_at_one a scale_factor channel_axis =
     (if scale_factor = 1 \<and> wf_array a then Inr a
      else Inl (LibraryError ''rescale at another factor''))"

text \<open>
  The objects \<open>pad_width_or_height\<close> pads: a numpy array of rank 2 or 3, or a PIL image.
\<close>

fun is_image :: "'a pyobj \<Rightarrow> bool" where
  "is_image (NDArray (Array2 w rows)) = True"
| "is_image (NDArray (Array3 w c rows)) = True"
| "is_image (PILImage w rows) = True"
| "is_image obj = False"

text \<open>
  The content of an image: the pixel of row \<open>i\<close> and column \<open>j\<close>, as the list of its
  channels, and the pixel that \<open>pad_width_or_height\<close> fills the border with, which is
  \<open>pad_value\<close> on every channel for a numpy array and 0 for a PIL image. An image is
  rectangular when every row has the width of the image.
\<close>

fun pixel :: "'a pyobj \<Rightarrow> nat \<Rightarrow> nat \<Rightarrow> 'a list" where
  "pixel (NDArray (Array2 w rows)) i j = [rows ! i ! j]"
| "pixel (NDArray (Array3 w c rows)) i j = rows ! i ! j"
| "pixel (PILImage w rows) i j = [rows ! i ! j]"
| "pixel obj i j = []"

fun border_pixel :: "'a::zero pyobj \<Rightarrow> 'a \<Rightarrow> 'a list" where
  "border_pixel (NDArray (Array3 w c rows)) pad_value = replicate c pad_value"
| "border_pixel (PILImage w rows) pad_value = [0]"
| "border_pixel obj pad_value = [pad_value]"

fun rectangular :: "'a pyobj \<Rightarrow> bool" where
  "rectangular (NDArray a) = wf_array a"
| "rectangular (PILImage w rows) = list_all (\<lambda>r. length r = w) rows"
| "rectangular obj = True"

text \<open>
  The canvas \<open>data'\<close> holds the image \<open>data\<close>, of size \<open>height\<close> by \<open>width\<close>, with its
  first pixel at row \<open>p_top\<close> and column \<open>p_left\<close>, and the border pixel everywhere else.
\<close>

definition placed_at ::
  "'a::zero pyobj \<Rightarrow> 'a pyobj \<Rightarrow> 'a \<Rightarrow> nat \<Rightarrow> nat \<Rightarrow> nat \<Rightarrow> nat \<Rightarrow> nat \<Rightarrow> nat \<Rightarrow> bool" where
  "placed_at data' data pad_value p_top p_left height width height' width' \<longleftrightarrow>
     (\<forall>i < height'. \<forall>j < width'.
        pixel data' i j =
          (if p_top \<le> i \<and> i < p_top + height \<and> p_left \<le> j \<and> j < p_left + width
           then pixel data (i - p_top) (j - p_left) else border_pixel data pad_value))"

section \<open>\<open>scale_crop\<close> on an explicit store\<close>

text \<open>
  To say what \<open>scale_crop\<close> writes, arrays live in a store of buffers. A numpy array
  object is a reference: a whole buffer, or a slice of another array, which numpy
  returns as a view on the same buffer. \<open>next_free\<close> is the first address never
  allocated.
\<close>

type_synonym addr = nat

datatype 'a buffer = ImageBuf "'a ndarray" | MatrixBuf matrix

record 'a store =
  heap :: "addr \<Rightarrow> 'a buffer option"
  next_free :: addr

datatype aref = Buf addr | Slice aref bool int int int int

fun base :: "aref \<Rightarrow> addr" where
  "base (Buf p) = p"
| "base (Slice r with_colon a b c d) = base r"

definition wf_store :: "'a store \<Rightarrow> bool" where
  "wf_store s \<longleftrightarrow> (\<forall>p. next_free s \<le> p \<longrightarrow> heap s p = None)"

text \<open>Programs on the store that return a value or raise.\<close>

type_synonym ('a, 'r) prog = "'a store \<Rightarrow> (error + 'r) \<times> 'a store"

definition returnS :: "'r \<Rightarrow> ('a, 'r) prog" where
  "returnS x s = (Inr x, s)"

definition raiseS :: "error \<Rightarrow> ('a, 'r) prog" where
  "raiseS e s = (Inl e, s)"

definition bindS :: "('a, 'r) prog \<Rightarrow> ('r \<Rightarrow> ('a, 'q) prog) \<Rightarrow> ('a, 'q) prog" where
  "bindS m f s = (case m s of (Inl e, s') \<Rightarrow> (Inl e, s') | (Inr x, s') \<Rightarrow> f x s')"

definition liftS :: "error + 'r \<Rightarrow> ('a, 'r) prog" where
  "liftS v s = (v, s)"

text \<open>A new buffer, at the first free address.\<close>

definition alloc :: "'a buffer \<Rightarrow> ('a, addr) prog" where
  "alloc b s =
     (Inr (next_free s),
      s\<lparr>heap := (heap s)(next_free s \<mapsto> b), next_free := Suc (next_free s)\<rparr>)"

definition read_buf :: "addr \<Rightarrow> ('a, 'a buffer) prog" where
  "read_buf p s =
     (case heap s p of
        Some b \<Rightarrow> (Inr b, s)
      | None \<Rightarrow> (Inl (LibraryError ''no such buffer''), s))"

text \<open>The array a reference denotes: the buffer, sliced as the views say.\<close>

fun read_array :: "aref \<Rightarrow> ('a, 'a ndarray) prog" where
  "read_array (Buf p) =
     bindS (read_buf p) (\<lambda>b.
       case b of
         ImageBuf a \<Rightarrow> returnS a
       | MatrixBuf m \<Rightarrow> raiseS (LibraryError ''not an image buffer''))"
| "read_array (Slice r with_colon a b c d) =
     bindS (read_array r) (\<lambda>arr.
       liftS (if with_colon then index3 arr a b c d else index2 arr a b c d))"

definition read_matrix :: "addr \<Rightarrow> ('a, matrix) prog" where
  "read_matrix p =
     bindS (read_buf p) (\<lambda>b.
       case b of
         MatrixBuf m \<Rightarrow> returnS m
       | ImageBuf a \<Rightarrow> raiseS (LibraryError ''not a matrix buffer''))"

text \<open>\<open>arr.copy()\<close>: a new buffer with the same content.\<close>

definition np_copy :: "aref \<Rightarrow> ('a, aref) prog" where
  "np_copy r = bindS (read_array r) (\<lambda>a. bindS (alloc (ImageBuf a)) (\<lambda>p. returnS (Buf p)))"

definition matrix_copy :: "addr \<Rightarrow> ('a, addr) prog" where
  "matrix_copy p = bindS (read_matrix p) (\<lambda>m. alloc (MatrixBuf m))"

text \<open>\<open>np.eye(3)\<close> allocates; \<open>M[i, j] = v\<close> writes into the buffer of \<open>M\<close>.\<close>

definition new_eye :: "nat \<Rightarrow> ('a, addr) prog" where
  "new_eye n = alloc (MatrixBuf (eye n))"

definition write_entry :: "addr \<Rightarrow> nat \<Rightarrow> nat \<Rightarrow> f64 \<Rightarrow> ('a, unit) prog" where
  "write_entry p i j v s =
     (case heap s p of
        Some (MatrixBuf m) \<Rightarrow> (Inr (), s\<lparr>heap := (heap s)(p \<mapsto> MatrixBuf (set_entry m i j v))\<rparr>)
      | _ \<Rightarrow> (Inl (LibraryError ''not a matrix buffer''), s))"

text \<open>\<open>A.dot(B)\<close> reads both matrices and allocates the product.\<close>

definition dot_st ::
  "(matrix \<Rightarrow> matrix \<Rightarrow> error + matrix) \<Rightarrow> addr \<Rightarrow> addr \<Rightarrow> ('a, addr) prog" where
  "dot_st np_dot pa pb =
     bindS (read_matrix pa) (\<lambda>A. bindS (read_matrix pb) (\<lambda>B.
       bindS (liftS (np_dot A B)) (\<lambda>C. alloc (MatrixBuf C))))"

text \<open>
  A debug dump: \<open>(255.*img).astype(np.uint8)\<close> makes two new arrays (their pixel
  arithmetic is not modelled) and the second is handed to \<open>imageio.imsave\<close>. On
  \<open>None\<close> the product raises.
\<close>

definition debug_save_st ::
  "(string \<Rightarrow> aref \<Rightarrow> ('a, unit) prog) \<Rightarrow> bool \<Rightarrow> string option \<Rightarrow> string \<Rightarrow> aref option
     \<Rightarrow> ('a, unit) prog" where
  "debug_save_st imsave debug debug_root name img =
     (if debug then
        (case img of
           None \<Rightarrow> raiseS (LibraryError ''unsupported operand type'')
         | Some r \<Rightarrow>
             bindS (read_array r) (\<lambda>a.
             bindS (alloc (ImageBuf a)) (\<lambda>scaled255.
             bindS (alloc (ImageBuf a)) (\<lambda>as_uint8.
               imsave (path_join (case debug_root of None \<Rightarrow> default_debug_root | Some d \<Rightarrow> d)
                         name) (Buf as_uint8)))))
      else returnS ())"

text \<open>
  \<open>crop_img\<close> on a numpy array: the result is a view of its argument, or \<open>None\<close>
  for a rank that is neither 3 nor 2.
\<close>

definition crop_img_st :: "aref \<Rightarrow> crop_size \<Rightarrow> int \<Rightarrow> int \<Rightarrow> ('a, aref option) prog" where
  "crop_img_st img crop_size h_offset w_offset =
     bindS (read_array img) (\<lambda>a.
       case crop_hw crop_size of (crop_height, crop_width) \<Rightarrow>
         if ndim a = 3 then
           returnS (Some (Slice img True h_offset (h_offset + crop_height)
                            w_offset (w_offset + crop_width)))
         else if ndim a = 2 then
           returnS (Some (Slice img False h_offset (h_offset + crop_height)
                            w_offset (w_offset + crop_width)))
         else returnS None)"

definition smaller_than_crop_st :: "aref option \<Rightarrow> int \<Rightarrow> int \<Rightarrow> ('a, bool) prog" where
  "smaller_than_crop_st img crop_height crop_width =
     (case img of
        None \<Rightarrow> raiseS (AttributeError ''shape'')
      | Some r \<Rightarrow>
          bindS (read_array r) (\<lambda>a.
            liftS (smaller_than_crop (NDArray a) crop_height crop_width)))"

text \<open>
  \<open>pad_width_or_height\<close> on a numpy array, with \<open>return_offsets=True\<close>: \<open>np.pad\<close>
  reads the array and allocates the padded one.
\<close>

definition pad_width_or_height_st ::
  "aref option \<Rightarrow> int \<Rightarrow> int \<Rightarrow> 'a \<Rightarrow> ('a::zero, aref option \<times> int \<times> int \<times> int \<times> int) prog" where
  "pad_width_or_height_st data output_width output_height pad_value =
     (case data of
        None \<Rightarrow> raiseS (UnboundLocalError ''width'')
      | Some d \<Rightarrow>
          bindS (read_array d) (\<lambda>a.
          bindS (liftS (pad_width_or_height (NDArray a) output_width output_height pad_value True))
            (\<lambda>r. case r of
               PaddedOffsets (NDArray padded) p_top p_bottom p_left p_right \<Rightarrow>
                 bindS (alloc (ImageBuf padded)) (\<lambda>p.
                   returnS (Some (Buf p), p_top, p_bottom, p_left, p_right))
             | _ \<Rightarrow> raiseS (ValueError ''cannot unpack''))))"

text \<open>
  Lines 125 to 163 on the store. \<open>img\<close> is the reference to a numpy array, or \<open>None\<close>
  for an object of another type. \<open>rescale\<close> and \<open>imsave\<close> are the library functions,
  parameters: they run on the store.
\<close>

definition scale_crop_image_st ::
  "(aref \<Rightarrow> real \<Rightarrow> nat option \<Rightarrow> ('a::zero, aref) prog)
     \<Rightarrow> (string \<Rightarrow> aref \<Rightarrow> ('a, unit) prog)
     \<Rightarrow> aref option \<Rightarrow> crop_size \<Rightarrow> int \<Rightarrow> int \<Rightarrow> real \<Rightarrow> bool \<Rightarrow> string option
     \<Rightarrow> ('a, aref option \<times> int \<times> int \<times> int \<times> int) prog" where
  "scale_crop_image_st rescale imsave img crop_size h_offset w_offset scale_factor debug debug_root =
     (case img of
        None \<Rightarrow> raiseS (RuntimeError ''invalid image type'')
      | Some r \<Rightarrow>
          bindS (read_array r) (\<lambda>a.
          case crop_hw crop_size of (crop_height, crop_width) \<Rightarrow>
          bindS (debug_save_st imsave debug debug_root ''0_input.png'' img) (\<lambda>_.
          bindS (if ndim a = 3 then
                   bindS (np_copy r) (\<lambda>c. rescale c scale_factor (Some 2))
                 else if ndim a = 2 then
                   bindS (np_copy r) (\<lambda>c. rescale c scale_factor None)
                 else raiseS (RuntimeError ''invalid input image dimension num'')) (\<lambda>scaled.
          bindS (debug_save_st imsave debug debug_root ''1_scaled.png'' (Some scaled)) (\<lambda>_.
          bindS (crop_img_st scaled crop_size h_offset w_offset) (\<lambda>cropped.
          bindS (debug_save_st imsave debug debug_root ''2_cropped.png'' cropped) (\<lambda>_.
          bindS (smaller_than_crop_st cropped crop_height crop_width) (\<lambda>small.
          bindS (if small then
                   pad_width_or_height_st cropped crop_width crop_height 0
                 else returnS (cropped, 0, 0, 0, 0)) (\<lambda>res.
          bindS (debug_save_st imsave debug debug_root ''3_padded.png'' (fst res)) (\<lambda>_.
            returnS res))))))))))"

text \<open>
  Lines 167 to 170 on the store: the three matrices are new buffers, written in place;
  \<open>K\<close> is copied, and each product is a new buffer.
\<close>

definition adjust_intrinsic_st ::
  "(matrix \<Rightarrow> matrix \<Rightarrow> error + matrix)
     \<Rightarrow> addr \<Rightarrow> real \<Rightarrow> int \<Rightarrow> int \<Rightarrow> int \<Rightarrow> int \<Rightarrow> ('a, addr) prog" where
  "adjust_intrinsic_st np_dot K scale_factor h_offset w_offset p_left p_top =
     bindS (new_eye 3) (\<lambda>Ks.
     bindS (write_entry Ks 0 0 (Finite scale_factor)) (\<lambda>_.
     bindS (write_entry Ks 1 1 (Finite scale_factor)) (\<lambda>_.
     bindS (new_eye 3) (\<lambda>Kc.
     bindS (liftS (float_of_int w_offset)) (\<lambda>fw.
     bindS (write_entry Kc 0 2 (fmul (Finite (- 1)) fw)) (\<lambda>_.
     bindS (liftS (float_of_int h_offset)) (\<lambda>fh.
     bindS (write_entry Kc 1 2 (fmul (Finite (- 1)) fh)) (\<lambda>_.
     bindS (new_eye 3) (\<lambda>Kp.
     bindS (liftS (float_of_int p_left)) (\<lambda>fl.
     bindS (write_entry Kp 0 2 fl) (\<lambda>_.
     bindS (liftS (float_of_int p_top)) (\<lambda>ft.
     bindS (write_entry Kp 1 2 ft) (\<lambda>_.
     bindS (matrix_copy K) (\<lambda>K_copy.
     bindS (dot_st np_dot Ks K_copy) (\<lambda>m1.
     bindS (dot_st np_dot Kc m1) (\<lambda>m2.
       dot_st np_dot Kp m2))))))))))))))))"

text \<open>
  \<open>scale_crop\<close> on the store; \<open>K\<close> is the address of the intrinsic, if one is given.
\<close>

definition scale_crop_st ::
  "(matrix \<Rightarrow> matrix \<Rightarrow> error + matrix)
     \<Rightarrow> (aref \<Rightarrow> real \<Rightarrow> nat option \<Rightarrow> ('a::zero, aref) prog)
     \<Rightarrow> (string \<Rightarrow> aref \<Rightarrow> ('a, unit) prog)
     \<Rightarrow> aref option \<Rightarrow> crop_size \<Rightarrow> int \<Rightarrow> int \<Rightarrow> real \<Rightarrow> addr option \<Rightarrow> bool \<Rightarrow> string option
     \<Rightarrow> ('a, aref option \<times> addr option) prog" where
  "scale_crop_st np_dot rescale imsave img crop_size h_offset w_offset scale_factor K debug
     debug_root =
     bindS (scale_crop_image_st rescale imsave img crop_size h_offset w_offset scale_factor
              debug debug_root)
       (\<lambda>(img', p_top, p_bottom, p_left, p_right).
          case K of
            Some k \<Rightarrow>
              bindS (adjust_intrinsic_st np_dot k scale_factor h_offset w_offset p_left p_top)
                (\<lambda>K_aug. returnS (img', Some K_aug))
          | None \<Rightarrow> returnS (img', None))"

text \<open>
  What is taken for granted of a library function that is handed one array: it writes
  to no buffer that existed before the call, other than the buffer of that array.
\<close>

definition writes_only :: "aref \<Rightarrow> ('a, 'r) prog \<Rightarrow> bool" where
  "writes_only r m \<longleftrightarrow>
     (\<forall>s res s'. wf_store s \<longrightarrow> m s = (res, s') \<longrightarrow>
        wf_store s' \<and> next_free s \<le> next_free s' \<and>
        (\<forall>p < next_free s. p \<noteq> base r \<longrightarrow> heap s' p = heap s p))"

definition library_frame ::
  "(aref \<Rightarrow> real \<Rightarrow> nat option \<Rightarrow> ('a, aref) prog) \<Rightarrow> (string \<Rightarrow> aref \<Rightarrow> ('a, unit) prog) \<Rightarrow> bool" where
  "library_frame rescale imsave \<longleftrightarrow>
     (\<forall>r s ax. writes_only r (rescale r s ax)) \<and> (\<forall>path r. writes_only r (imsave path r))"

text \<open>
  The store \<open>s\<close> of a run that started in \<open>s0\<close> keeps every buffer of \<open>s0\<close>; and a
  program keeps them, with a result that satisfies \<open>Q\<close>.
\<close>

definition frame :: "'a store \<Rightarrow> 'a store \<Rightarrow> bool" where
  "frame s0 s \<longleftrightarrow>
     wf_store s \<and> next_free s0 \<le> next_free s \<and> (\<forall>p < next_free s0. heap s p = heap s0 p)"

definition keeps :: "'a store \<Rightarrow> ('a, 'r) prog \<Rightarrow> ('r \<Rightarrow> bool) \<Rightarrow> bool" where
  "keeps s0 m Q \<longleftrightarrow>
     (\<forall>s res s'. frame s0 s \<longrightarrow> m s = (res, s') \<longrightarrow> frame s0 s' \<and> (\<forall>x. res = Inr x \<longrightarrow> Q x))"

text \<open>
  A \<open>rescale\<close> on the store that computes its result from the array it is handed, by
  a function \<open>f\<close>, and returns it in a new buffer.
\<close>

definition lift_rescale ::
  "('a ndarray \<Rightarrow> real \<Rightarrow> nat option \<Rightarrow> error + 'a ndarray) \<Rightarrow> aref \<Rightarrow> real \<Rightarrow> nat option \<Rightarrow> ('a, aref) prog" where
  "lift_rescale f c scale_factor channel_axis =
     bindS (read_array c) (\<lambda>a.
     bindS (liftS (f a scale_factor channel_axis)) (\<lambda>r.
     bindS (alloc (ImageBuf r)) (\<lambda>p. returnS (Buf p))))"

text \<open>
  For the concrete example: a \<open>rescale\<close> that overwrites the array it is given and
  returns it, and an \<open>imsave\<close> that does nothing.
\<close>

definition clobbering_rescale :: "aref \<Rightarrow> real \<Rightarrow> nat option \<Rightarrow> ('a::zero, aref) prog" where
  "clobbering_rescale r scale_factor channel_axis s =
     (case heap s (base r) of
        Some b \<Rightarrow>
          (Inr (Buf (base r)), s\<lparr>heap := (heap s)(base r \<mapsto> ImageBuf (Array2 1 [[0]]))\<rparr>)
      | None \<Rightarrow> (Inl (LibraryError ''no such buffer''), s))"

definition imsave_nothing :: "string \<Rightarrow> aref \<Rightarrow> ('a, unit) prog" where
  "imsave_nothing path r = returnS ()"

definition example_store :: "real store" where
  "example_store =
     \<lparr>heap = (\<lambda>p. None)(0 \<mapsto> ImageBuf (Array2 2 [[1, 2], [3, 4]]),
                       1 \<mapsto> MatrixBuf (floats [[500, 0, 320], [0, 500, 240], [0, 0, 1]])),
      next_free = 2\<rparr>"

section \<open>Rounding to binary64\<close>

lemma rne_of_int [simp]: "rne (of_int n) = n"
  by (simp add: rne_def)

lemma rne_bounds: "\<bar>real_of_int (rne y) - y\<bar> \<le> 1 / 2"
  unfolding rne_def Let_def by (auto simp add: abs_le_iff; linarith)

lemma rne_ties: "rne (1 / 2) = 0" "rne (3 / 2) = 2" "rne (5 / 2) = 2" "rne (- (1 / 2)) = 0"
  "rne (- (3 / 2)) = - 2"
proof -
  have f: "\<lfloor>1 / 2 :: real\<rfloor> = 0" "\<lfloor>3 / 2 :: real\<rfloor> = 1" "\<lfloor>5 / 2 :: real\<rfloor> = 2"
    "\<lfloor>- (1 / 2) :: real\<rfloor> = - 1" "\<lfloor>- (3 / 2) :: real\<rfloor> = - 2"
    by (simp_all add: floor_eq_iff)
  show "rne (1 / 2) = 0" "rne (3 / 2) = 2" "rne (5 / 2) = 2" "rne (- (1 / 2)) = 0"
    "rne (- (3 / 2)) = - 2"
    unfolding rne_def Let_def f by simp_all
qed

lemma floor_log2_bounds:
  assumes "x \<noteq> 0"
  shows "2 powr real_of_int \<lfloor>log 2 \<bar>x\<bar>\<rfloor> \<le> \<bar>x\<bar>" "\<bar>x\<bar> < 2 powr (real_of_int \<lfloor>log 2 \<bar>x\<bar>\<rfloor> + 1)"
proof -
  from assms have pos: "0 < \<bar>x\<bar>" by simp
  have "2 powr real_of_int \<lfloor>log 2 \<bar>x\<bar>\<rfloor> \<le> 2 powr log 2 \<bar>x\<bar>"
    by (rule powr_mono) simp_all
  with pos show "2 powr real_of_int \<lfloor>log 2 \<bar>x\<bar>\<rfloor> \<le> \<bar>x\<bar>" by simp
  have "2 powr log 2 \<bar>x\<bar> < 2 powr (real_of_int \<lfloor>log 2 \<bar>x\<bar>\<rfloor> + 1)"
    by (rule powr_less_mono) (linarith, simp)
  with pos show "\<bar>x\<bar> < 2 powr (real_of_int \<lfloor>log 2 \<bar>x\<bar>\<rfloor> + 1)" by simp
qed

lemma floor_log2_eq:
  assumes "2 powr real_of_int e \<le> \<bar>x\<bar>" and "\<bar>x\<bar> < 2 powr (real_of_int e + 1)"
  shows "\<lfloor>log 2 \<bar>x\<bar>\<rfloor> = e"
proof -
  have "(0 :: real) < 2 powr real_of_int e" by simp
  with assms(1) have pos: "0 < \<bar>x\<bar>" by linarith
  have "real_of_int e \<le> log 2 \<bar>x\<bar>"
    using assms(1) pos by (simp add: le_log_iff)
  moreover have "log 2 \<bar>x\<bar> < real_of_int e + 1"
    using assms(2) pos by (simp add: log_less_iff)
  ultimately show ?thesis by linarith
qed

text \<open>The rounding of a number whose binade is known.\<close>

lemma rnd64_at:
  assumes "2 powr real_of_int e \<le> \<bar>x\<bar>" and "\<bar>x\<bar> < 2 powr (real_of_int e + 1)"
  shows "rnd64 x =
     (let u = 2 powr real_of_int (max (e - 52) (- 1074));
          r = real_of_int (rne (x / u)) * u
      in if 2 ^ 1024 \<le> \<bar>r\<bar> then NonFinite else Finite r)"
proof -
  have "(0 :: real) < 2 powr real_of_int e" by simp
  with assms(1) have "x \<noteq> 0" by auto
  then show ?thesis
    by (simp add: rnd64_def ulp_exponent_def floor_log2_eq [OF assms])
qed

text \<open>A number with a significand of 53 bits is a binary64 number.\<close>

lemma rnd64_exact:
  assumes x: "x = real_of_int m * 2 powr real_of_int k"
    and m: "\<bar>m\<bar> < 2 ^ 53" and k: "- 1074 \<le> k" and fin: "\<bar>x\<bar> < 2 ^ 1024"
  shows "rnd64 x = Finite x"
proof (cases "x = 0")
  case True
  then show ?thesis by (simp add: rnd64_def)
next
  case False
  define e where "e = \<lfloor>log 2 \<bar>x\<bar>\<rfloor>"
  define j where "j = ulp_exponent x"
  have "2 powr real_of_int e \<le> \<bar>x\<bar>" unfolding e_def using False by (rule floor_log2_bounds)
  also have "\<bar>x\<bar> = real_of_int \<bar>m\<bar> * 2 powr real_of_int k"
    by (simp add: x abs_mult)
  also have "\<dots> < 2 ^ 53 * 2 powr real_of_int k"
  proof -
    have "real_of_int \<bar>m\<bar> < 2 ^ 53" using m by (metis of_int_less_numeral_power_cancel_iff)
    then show ?thesis by simp
  qed
  also have "\<dots> = 2 powr (53 + real_of_int k)"
    by (simp add: powr_add powr_realpow [symmetric])
  finally have "real_of_int e < 53 + real_of_int k" by simp
  then have "e - 52 \<le> k" by linarith
  with k have jk: "j \<le> k" by (simp add: j_def ulp_exponent_def e_def)
  define n where "n = nat (k - j)"
  have "2 powr real_of_int k = 2 powr real_of_int j * 2 ^ n"
  proof -
    have "real_of_int k = real_of_int j + real n" using jk by (simp add: n_def)
    then show ?thesis by (simp add: powr_add powr_realpow)
  qed
  then have xu: "x / 2 powr real_of_int j = real_of_int (m * 2 ^ n)"
    by (simp add: x)
  have "real_of_int (rne (x / 2 powr real_of_int j)) * 2 powr real_of_int j = x"
    unfolding xu rne_of_int using xu by (simp add: field_simps)
  with False fin show ?thesis
    by (simp add: rnd64_def Let_def j_def [symmetric])
qed

lemma rnd64_Ints:
  assumes "x \<in> \<int>" and "\<bar>x\<bar> < 2 ^ 53"
  shows "rnd64 x = Finite x"
proof -
  from assms(1) obtain m where m: "x = real_of_int m" by (auto elim: Ints_cases)
  with assms(2) have "\<bar>m\<bar> < 2 ^ 53"
    by (metis of_int_abs of_int_less_numeral_power_cancel_iff)
  moreover have "\<bar>x\<bar> < 2 ^ 1024"
  proof -
    have "(2 :: real) ^ 53 \<le> 2 ^ 1024" by (rule power_increasing) simp_all
    with assms(2) show ?thesis by linarith
  qed
  ultimately show ?thesis using m by (intro rnd64_exact [where m = m and k = 0]) simp_all
qed

lemma rnd64_of_int: "\<bar>n\<bar> < 2 ^ 53 \<Longrightarrow> rnd64 (real_of_int n) = Finite (real_of_int n)"
proof (rule rnd64_Ints)
  show "real_of_int n \<in> \<int>" by simp
  assume "\<bar>n\<bar> < 2 ^ 53"
  then have "real_of_int \<bar>n\<bar> < 2 ^ 53" by (metis of_int_less_numeral_power_cancel_iff)
  then show "\<bar>real_of_int n\<bar> < 2 ^ 53" by simp
qed

text \<open>Half an integer of at most 53 bits is a binary64 number.\<close>

lemma rnd64_half:
  assumes "0 \<le> d" and "d \<le> 2 ^ 53"
  shows "rnd64 (real_of_int d / 2) = Finite (real_of_int d / 2)"
proof (cases "even d")
  case True
  then obtain c where c: "d = 2 * c" by (auto elim: evenE)
  with assms have "\<bar>c\<bar> < 2 ^ 53" by simp
  then have "rnd64 (real_of_int c) = Finite (real_of_int c)" by (rule rnd64_of_int)
  then show ?thesis by (simp add: c)
next
  case False
  with assms(2) have "d \<noteq> 2 ^ 53" by auto
  with assms have m: "\<bar>d\<bar> < 2 ^ 53" by simp
  have fin: "\<bar>real_of_int d / 2\<bar> < 2 ^ 1024"
  proof -
    have "(2 :: real) ^ 53 \<le> 2 ^ 1024" by (rule power_increasing) simp_all
    moreover have "real_of_int \<bar>d\<bar> < 2 ^ 53" using m by (metis of_int_less_numeral_power_cancel_iff)
    ultimately show ?thesis by simp
  qed
  show ?thesis
    by (rule rnd64_exact [where m = d and k = "- 1"]) (use m fin in \<open>simp_all add: powr_minus\<close>)
qed

text \<open>
  Rounding a number that is at least 1/2 gives a number between 0 and its double, and
  does not overflow below \<open>2 ^ 1023\<close>.
\<close>

lemma rnd64_bounds:
  assumes "1 / 2 \<le> x"
  shows "rnd64 x = Finite r \<Longrightarrow> 0 \<le> r \<and> r \<le> 2 * x"
    and "x < 2 ^ 1023 \<Longrightarrow> \<exists>r. rnd64 x = Finite r"
proof -
  from assms have pos: "0 < x" "x \<noteq> 0" "\<bar>x\<bar> = x" by simp_all
  define e where "e = \<lfloor>log 2 \<bar>x\<bar>\<rfloor>"
  have "log 2 (1 / 2) \<le> log 2 x" using assms by (simp del: log_divide)
  then have "- 1 \<le> log 2 x" by (simp add: log_divide)
  then have e1: "- 1 \<le> e" unfolding e_def pos(3) by linarith
  then have j: "ulp_exponent x = e - 52" by (simp add: ulp_exponent_def e_def)
  define u where "u = 2 powr real_of_int (e - 52)"
  have upos: "0 < u" by (simp add: u_def)
  have "2 powr real_of_int e \<le> x" using floor_log2_bounds(1) [OF pos(2)] by (simp add: e_def pos(3))
  moreover have "u = 2 powr real_of_int e * 2 powr (- 52)" by (simp add: u_def powr_diff powr_minus field_simps)
  ultimately have ux: "u \<le> x * 2 powr (- 52)" by simp
  have small: "(2 :: real) powr (- 52) \<le> 1" by (simp add: powr_minus field_simps)
  define N where "N = rne (x / u)"
  have "\<bar>real_of_int N - x / u\<bar> \<le> 1 / 2" unfolding N_def by (rule rne_bounds)
  then have "\<bar>real_of_int N * u - x\<bar> \<le> u / 2"
    using upos by (simp add: abs_le_iff field_simps)
  moreover have "u / 2 \<le> x / 2"
  proof -
    have "x * 2 powr (- 52) \<le> x * 1" using small pos(1) by (intro mult_left_mono) simp_all
    with ux show ?thesis by simp
  qed
  ultimately have rb: "x / 2 \<le> real_of_int N * u" "real_of_int N * u \<le> 2 * x"
    by (simp_all add: abs_le_iff; linarith)+
  have val: "rnd64 x = (if 2 ^ 1024 \<le> \<bar>real_of_int N * u\<bar> then NonFinite else Finite (real_of_int N * u))"
    using pos(2) by (simp add: rnd64_def Let_def j u_def N_def)
  show "rnd64 x = Finite r \<Longrightarrow> 0 \<le> r \<and> r \<le> 2 * x"
    using val rb pos(1) by (auto split: if_splits)
  show "x < 2 ^ 1023 \<Longrightarrow> \<exists>r. rnd64 x = Finite r"
  proof -
    assume "x < 2 ^ 1023"
    then have "2 * x < 2 ^ 1024" by simp
    with rb pos(1) have "\<bar>real_of_int N * u\<bar> < 2 ^ 1024" by (simp add: abs_if; linarith)
    with val show ?thesis by simp
  qed
qed

lemma float_of_int_small:
  "\<bar>n\<bar> < 2 ^ 53 \<Longrightarrow> float_of_int n = Inr (Finite (real_of_int n))"
  by (simp add: float_of_int_def rnd64_of_int)

lemma fmul_minus_one_int:
  assumes "\<bar>n\<bar> < 2 ^ 53"
  shows "fmul (Finite (- 1)) (Finite (real_of_int n)) = Finite (- real_of_int n)"
proof -
  from assms have "\<bar>- n\<bar> < 2 ^ 53" by simp
  then have "rnd64 (real_of_int (- n)) = Finite (real_of_int (- n))" by (rule rnd64_of_int)
  then show ?thesis by simp
qed

section \<open>Results and slices\<close>

lemma bindR_Inr_iff: "bindR m f = Inr y \<longleftrightarrow> (\<exists>x. m = Inr x \<and> f x = Inr y)"
  by (cases m) (simp_all add: bindR_def)

lemma bindR_Inl [simp]: "bindR (Inl e) f = Inl e"
  by (simp add: bindR_def)

lemma bindR_Inr [simp]: "bindR (Inr x) f = f x"
  by (simp add: bindR_def)

lemma slice_bound_le: "slice_bound i n \<le> n"
  by (auto simp: slice_bound_def)

lemma length_py_slice: "length (py_slice lo hi xs) = slice_len lo hi (length xs)"
  using slice_bound_le [of hi "length xs"] by (simp add: py_slice_def slice_len_def)

lemma slice_len_le: "0 \<le> c \<Longrightarrow> int (slice_len lo (lo + c) n) \<le> c"
  unfolding slice_len_def slice_bound_def by (auto split: if_splits)

lemma pad_split_eq:
  "pad_split e out =
     (if e < out then
        (case rnd64 (real_of_int (out - e) / 2) of
           NonFinite \<Rightarrow> Inl (OverflowError ''integer division result too large for a float'')
         | Finite q \<Rightarrow> Inr (\<lfloor>q\<rfloor>, (out - e) - \<lfloor>q\<rfloor>))
      else Inr (0, 0))"
  by (simp add: pad_split_def int_truediv_def split: f64.splits)

text \<open>
  Up to a shortfall of \<open>2 ^ 53\<close> the division by 2 is exact, and the amounts are those
  of the integer division.
\<close>

lemma pad_split_div:
  assumes "out - e \<le> 2 ^ 53"
  shows "pad_split e out =
     Inr (if e < out then ((out - e) div 2, (out - e) - (out - e) div 2) else (0, 0))"
proof (cases "e < out")
  case True
  with assms have "rnd64 (real_of_int (out - e) / 2) = Finite (real_of_int (out - e) / 2)"
    by (intro rnd64_half) simp_all
  with True show ?thesis
    by (simp add: pad_split_eq floor_divide_of_int_eq [where 'a=real, symmetric])
qed (simp add: pad_split_eq)

text \<open>
  Whatever the shortfall, the amounts that are returned are not negative and make up
  the shortfall; and they are returned for every shortfall below \<open>2 ^ 1024\<close>.
\<close>

lemma pad_split_props:
  assumes "pad_split e out = Inr (b, a)"
  shows "0 \<le> b" "0 \<le> a" "e + b + a = max e out"
proof -
  have "0 \<le> b \<and> 0 \<le> a \<and> e + b + a = max e out"
  proof (cases "e < out")
    case True
    with assms obtain q where q: "rnd64 (real_of_int (out - e) / 2) = Finite q"
      and b: "b = \<lfloor>q\<rfloor>" and a: "a = (out - e) - \<lfloor>q\<rfloor>"
      by (auto simp add: pad_split_eq split: f64.splits)
    from True have "1 / 2 \<le> real_of_int (out - e) / 2" by simp
    from rnd64_bounds(1) [OF this q] have "0 \<le> q" "q \<le> real_of_int (out - e)" by simp_all
    then have "0 \<le> \<lfloor>q\<rfloor>" "\<lfloor>q\<rfloor> \<le> out - e" by (simp_all add: floor_le_iff le_floor_iff)
    with True show ?thesis by (simp add: a b)
  next
    case False
    with assms show ?thesis by (simp add: pad_split_eq)
  qed
  then show "0 \<le> b" "0 \<le> a" "e + b + a = max e out" by simp_all
qed

lemma pad_split_zero: "out \<le> e \<Longrightarrow> pad_split e out = Inr (0, 0)"
  by (simp add: pad_split_def)

lemma pad_split_total:
  assumes "out - e < 2 ^ 1024"
  shows "\<exists>b a. pad_split e out = Inr (b, a)"
proof (cases "e < out")
  case True
  then have h: "1 / 2 \<le> real_of_int (out - e) / 2" by simp
  from assms have "real_of_int (out - e) < 2 ^ 1024"
    by (metis of_int_less_numeral_power_cancel_iff)
  then have "real_of_int (out - e) / 2 < 2 ^ 1023" by simp
  from rnd64_bounds(2) [OF h this] True show ?thesis by (auto simp add: pad_split_eq)
qed (simp add: pad_split_eq)

lemma py_slice_pad_axis:
  "py_slice (int b) (int b + int (length xs)) (pad_axis b a v xs) = xs"
  by (simp add: py_slice_def pad_axis_def slice_bound_def)

lemma length_pad_axis [simp]: "length (pad_axis b a v xs) = b + length xs + a"
  by (simp add: pad_axis_def)

lemma pad_axis_zero [simp]: "pad_axis 0 0 v xs = xs"
  by (simp add: pad_axis_def)

lemma set_py_slice: "set (py_slice lo hi xs) \<subseteq> set xs"
  unfolding py_slice_def by (meson set_take_subset set_drop_subset subset_trans)

lemma wf_rows_slice:
  assumes "list_all (\<lambda>r. length r = w) rows"
  shows "list_all (\<lambda>r. length r = slice_len c d w) (map (py_slice c d) (py_slice a b rows))"
  using assms set_py_slice [of a b rows] by (auto simp: list_all_iff length_py_slice)

lemma wf_rows3_slice:
  assumes "list_all (\<lambda>r. length r = w \<and> list_all (\<lambda>p. length p = k) r) rows"
  shows "list_all (\<lambda>r. length r = slice_len c d w \<and> list_all (\<lambda>p. length p = k) r)
           (map (py_slice c d) (py_slice a b rows))"
proof -
  have "length (py_slice c d r) = slice_len c d w \<and> list_all (\<lambda>p. length p = k) (py_slice c d r)"
    if "r \<in> set (py_slice a b rows)" for r
  proof -
    from that set_py_slice [of a b rows] have "r \<in> set rows" by blast
    with assms have r: "length r = w" "\<forall>p \<in> set r. length p = k"
      by (simp_all add: list_all_iff)
    from r(2) set_py_slice [of c d r] have "\<forall>p \<in> set (py_slice c d r). length p = k"
      by blast
    with r(1) show ?thesis by (simp add: list_all_iff length_py_slice)
  qed
  then show ?thesis by (simp add: list_all_iff)
qed

lemma crop_img_ndarray:
  assumes "crop_img (NDArray r) cs h w = Inr c" "crop_hw cs = (ch, cw)"
  shows "(ndim r \<noteq> 2 \<and> ndim r \<noteq> 3 \<and> c = PyNone) \<or>
         (\<exists>a s0 s1. c = NDArray a \<and> ndim a = ndim r \<and> (ndim r = 2 \<or> ndim r = 3) \<and>
            shape_axis a 0 = Inr s0 \<and> shape_axis a 1 = Inr s1 \<and> 0 \<le> s0 \<and> 0 \<le> s1 \<and>
            (0 \<le> ch \<longrightarrow> s0 \<le> ch) \<and> (0 \<le> cw \<longrightarrow> s1 \<le> cw) \<and> (wf_array r \<longrightarrow> wf_array a))"
proof (cases r)
  case (Array2 wd rows)
  with assms have "c = NDArray (Array2 (slice_len w (w + cw) wd)
      (map (py_slice w (w + cw)) (py_slice h (h + ch) rows)))"
    by (simp add: crop_img_def img_dim_def)
  with Array2 show ?thesis
    by (simp add: length_py_slice slice_len_le wf_rows_slice)
next
  case (Array3 wd k rows)
  with assms have "c = NDArray (Array3 (slice_len w (w + cw) wd) k
      (map (py_slice w (w + cw)) (py_slice h (h + ch) rows)))"
    by (simp add: crop_img_def img_dim_def)
  with Array3 show ?thesis
    by (simp add: length_py_slice slice_len_le wf_rows3_slice)
qed (use assms in \<open>simp_all add: crop_img_def img_dim_def\<close>)

section \<open>What \<open>crop_img\<close> does with an input it cannot crop\<close>

text \<open>
  C3. An input that is neither a numpy array nor a tensor should make \<open>crop_img\<close> raise
  the error for an unsupported type. The module never imports \<open>torch\<close>, so the test
  \<open>torch.is_tensor(img)\<close> raises \<open>NameError\<close> before the \<open>else\<close> branch is reached: on a
  plain object \<open>crop_img\<close> raises \<open>NameError\<close>, not the \<open>RuntimeError\<close> of line 95. The
  same happens on a PIL image and on a torch tensor.
\<close>

theorem crop_img_plain_object_NameError:
  "crop_img (PyObject :: int pyobj) (Scalar 2) 0 0 = Inl (NameError ''torch'') \<and>
   crop_img (PyObject :: int pyobj) (Scalar 2) 0 0 \<noteq> Inl UnsupportedTypeError \<and>
   crop_img (PILImage 1 [[0 :: int]]) (Scalar 2) 0 0 = Inl (NameError ''torch'') \<and>
   crop_img (TorchTensor (Array2 1 [[0 :: int]])) (Scalar 2) 0 0 = Inl (NameError ''torch'')"
  by (simp add: crop_img_def img_dim_def module_globals_def UnsupportedTypeError_def)

text \<open>
  C5. A call that raises nothing should return a whole result. On a numpy array of rank
  1 \<open>crop_img\<close> raises nothing and returns \<open>None\<close>: neither \<open>dim == 3\<close> nor \<open>dim == 2\<close>
  holds and there is no \<open>else\<close>.
\<close>

theorem crop_img_rank1_returns_None:
  "crop_img (NDArray (Array1 [1, 2, 3 :: int])) (Scalar 2) 0 0 = Inr PyNone"
  by (simp add: crop_img_def img_dim_def)

section \<open>Padding\<close>

lemma pad_axis_zero_fun: "pad_axis 0 0 v = (\<lambda>xs. xs)"
  by (simp add: fun_eq_iff)

lemma pad_array2:
  assumes "pad_split (int w) ow = Inr (pl, pr)" "pad_split (int (length rows)) oh = Inr (pt, pb)"
  shows "pad_width_or_height (NDArray (Array2 w rows)) ow oh v ro =
     (let d = NDArray (Array2 (nat pl + w + nat pr)
                (pad_axis (nat pt) (nat pb) (replicate (nat pl + w + nat pr) v)
                   (map (pad_axis (nat pl) (nat pr) v) rows)))
      in Inr (if ro then PaddedOffsets d pt pb pl pr else Padded d))"
  using assms pad_split_props(1,2) [OF assms(1)] pad_split_props(1,2) [OF assms(2)]
  by (simp add: pad_width_or_height_def data_size_def pad_data_def Let_def)

lemma pad_array3:
  assumes "pad_split (int w) ow = Inr (pl, pr)" "pad_split (int (length rows)) oh = Inr (pt, pb)"
  shows "pad_width_or_height (NDArray (Array3 w c rows)) ow oh v ro =
     (let d = NDArray (Array3 (nat pl + w + nat pr) c
                (pad_axis (nat pt) (nat pb) (replicate (nat pl + w + nat pr) (replicate c v))
                   (map (pad_axis (nat pl) (nat pr) (replicate c v)) rows)))
      in Inr (if ro then PaddedOffsets d pt pb pl pr else Padded d))"
  using assms pad_split_props(1,2) [OF assms(1)] pad_split_props(1,2) [OF assms(2)]
  by (simp add: pad_width_or_height_def data_size_def pad_data_def Let_def pad_axis_zero_fun)

lemma pad_pil:
  assumes "pad_split (int w) ow = Inr (pl, pr)" "pad_split (int (length rows)) oh = Inr (pt, pb)"
  shows "pad_width_or_height (PILImage w rows) ow oh v ro =
     (let d = PILImage (nat pl + w + nat pr)
                (pad_axis (nat pt) (nat pb) (replicate (nat pl + w + nat pr) 0)
                   (map (pad_axis (nat pl) (nat pr) 0) rows))
      in Inr (if ro then PaddedOffsets d pt pb pl pr else Padded d))"
  using assms
  by (simp add: pad_width_or_height_def data_size_def pad_data_def Let_def transforms_Pad_def)

lemma pad_Inr_is_image:
  assumes "pad_width_or_height data ow oh v ro = Inr r"
  shows "is_image data"
proof (cases data)
  case (NDArray a)
  with assms show ?thesis
    by (cases a) (auto simp: pad_width_or_height_def data_size_def pad_data_def bindR_Inr_iff
        split: prod.splits if_splits)
qed (use assms in \<open>simp_all add: pad_width_or_height_def data_size_def\<close>)

lemma is_image_data_size: "is_image data \<Longrightarrow> \<exists>height width wc. data_size data = Inr (Some (height, width, wc))"
  by (cases data rule: is_image.cases) (auto simp add: data_size_def)

text \<open>When the padding returns, both splits have returned.\<close>

lemma pad_InrD:
  assumes "pad_width_or_height data ow oh v ro = Inr r"
    and "data_size data = Inr (Some (height, width, wc))"
  shows "\<exists>pl pr pt pb. pad_split width ow = Inr (pl, pr) \<and> pad_split height oh = Inr (pt, pb)"
  using assms unfolding pad_width_or_height_def
  by (auto simp add: bindR_Inr_iff)

lemma wf_pad_rows:
  assumes "list_all P rows" and "\<And>r. P r \<Longrightarrow> Q (pad_axis pl pr v r)" and "Q fill"
  shows "list_all Q (pad_axis pt pb fill (map (pad_axis pl pr v) rows))"
  using assms by (auto simp add: pad_axis_def list_all_iff)

text \<open>The pixels of padded rows.\<close>

lemma nth_pad_axis:
  "i < b + length xs + a \<Longrightarrow>
     pad_axis b a v xs ! i = (if b \<le> i \<and> i < b + length xs then xs ! (i - b) else v)"
  by (auto simp add: pad_axis_def nth_append)

lemma nth_pad_rows:
  assumes "list_all (\<lambda>r. length r = w) rows" and "i < pt + length rows + pb"
    and "j < pl + w + pr"
  shows "pad_axis pt pb (replicate (pl + w + pr) v) (map (pad_axis pl pr v) rows) ! i ! j =
     (if pt \<le> i \<and> i < pt + length rows \<and> pl \<le> j \<and> j < pl + w
      then rows ! (i - pt) ! (j - pl) else v)"
proof (cases "pt \<le> i \<and> i < pt + length rows")
  case True
  then have il: "i - pt < length rows" by linarith
  then have r: "rows ! (i - pt) \<in> set rows" by (rule nth_mem)
  with assms(1) have len: "length (rows ! (i - pt)) = w" by (simp add: list_all_iff)
  from True assms(2) il have "pad_axis pt pb (replicate (pl + w + pr) v) (map (pad_axis pl pr v) rows) ! i =
      pad_axis pl pr v (rows ! (i - pt))"
    by (simp add: nth_pad_axis)
  with True assms(3) len show ?thesis by (simp add: nth_pad_axis)
next
  case False
  with assms(2) have "pad_axis pt pb (replicate (pl + w + pr) v) (map (pad_axis pl pr v) rows) ! i =
      replicate (pl + w + pr) v"
    by (auto simp add: nth_pad_axis)
  with False assms(3) show ?thesis by auto
qed

text \<open>
  What the padding returns, given the amounts of the two splits: the canvas has the
  size of the image plus the amounts, and holds the image at \<open>(p_top, p_left)\<close>.
\<close>

lemma pad_image_result:
  assumes "is_image data" and "data_size data = Inr (Some (height, width, wc))"
    and lr: "pad_split width output_width = Inr (pl, pr)"
    and tb: "pad_split height output_height = Inr (pt, pb)"
  shows "\<exists>data'.
     (\<forall>ro. pad_width_or_height data output_width output_height pad_value ro =
        Inr (if ro then PaddedOffsets data' pt pb pl pr else Padded data')) \<and>
     is_image data' \<and>
     data_size data' = Inr (Some (pt + height + pb, pl + width + pr, wc)) \<and>
     (\<forall>a. data = NDArray a \<longrightarrow>
        (\<exists>a'. data' = NDArray a' \<and> ndim a' = ndim a \<and> (wf_array a \<longrightarrow> wf_array a'))) \<and>
     (rectangular data \<longrightarrow>
        rectangular data' \<and>
        placed_at data' data pad_value (nat pt) (nat pl) (nat height) (nat width)
          (nat (pt + height + pb)) (nat (pl + width + pr)))"
proof -
  note P = pad_split_props(1,2) [OF lr] pad_split_props(1,2) [OF tb]
  have sums: "nat (pt + int n + pb) = nat pt + n + nat pb" "nat (pl + int n + pr) = nat pl + n + nat pr"
    for n using P by simp_all
  show ?thesis
  proof (cases data)
    case (NDArray a)
    show ?thesis
    proof (cases a)
      case (Array2 w rows)
      with NDArray assms(2) have hw: "height = int (length rows)" "width = int w" "wc = False"
        by (auto simp add: data_size_def)
      have wf: "wf_array (Array2 (nat pl + w + nat pr)
                (pad_axis (nat pt) (nat pb) (replicate (nat pl + w + nat pr) pad_value)
                   (map (pad_axis (nat pl) (nat pr) pad_value) rows)))" if "wf_array a"
        using that unfolding Array2 wf_array.simps by (rule wf_pad_rows) simp_all
      have content: "placed_at (NDArray (Array2 (nat pl + w + nat pr)
                (pad_axis (nat pt) (nat pb) (replicate (nat pl + w + nat pr) pad_value)
                   (map (pad_axis (nat pl) (nat pr) pad_value) rows))))
              (NDArray (Array2 w rows)) pad_value (nat pt) (nat pl) (length rows) w
              (nat pt + length rows + nat pb) (nat pl + w + nat pr)" if "wf_array a"
        using that unfolding Array2 wf_array.simps placed_at_def
        by (simp add: nth_pad_rows)
      show ?thesis
        using P wf content unfolding NDArray Array2
        by (simp add: pad_array2 [OF lr [unfolded hw] tb [unfolded hw]] data_size_def hw sums)
    next
      case (Array3 w c rows)
      with NDArray assms(2) have hw: "height = int (length rows)" "width = int w" "wc = True"
        by (auto simp add: data_size_def)
      have wf: "wf_array (Array3 (nat pl + w + nat pr) c
                (pad_axis (nat pt) (nat pb) (replicate (nat pl + w + nat pr) (replicate c pad_value))
                   (map (pad_axis (nat pl) (nat pr) (replicate c pad_value)) rows)))" if "wf_array a"
        using that unfolding Array3 wf_array.simps
        by (rule wf_pad_rows) (auto simp add: pad_axis_def list_all_iff)
      have content: "placed_at (NDArray (Array3 (nat pl + w + nat pr) c
                (pad_axis (nat pt) (nat pb) (replicate (nat pl + w + nat pr) (replicate c pad_value))
                   (map (pad_axis (nat pl) (nat pr) (replicate c pad_value)) rows))))
              (NDArray (Array3 w c rows)) pad_value (nat pt) (nat pl) (length rows) w
              (nat pt + length rows + nat pb) (nat pl + w + nat pr)" if "wf_array a"
      proof -
        from that have "list_all (\<lambda>r. length r = w) rows"
          unfolding Array3 wf_array.simps by (simp add: list_all_iff)
        then show ?thesis unfolding placed_at_def by (simp add: nth_pad_rows)
      qed
      show ?thesis
        using P wf content unfolding NDArray Array3
        by (simp add: pad_array3 [OF lr [unfolded hw] tb [unfolded hw]] data_size_def hw sums)
    qed (use assms(1) NDArray in simp_all)
  next
    case (PILImage w rows)
    with assms(2) have hw: "height = int (length rows)" "width = int w" "wc = False"
      by (auto simp add: data_size_def)
    have wf: "list_all (\<lambda>r. length r = nat pl + w + nat pr)
                (pad_axis (nat pt) (nat pb) (replicate (nat pl + w + nat pr) 0)
                   (map (pad_axis (nat pl) (nat pr) 0) rows))"
      if "list_all (\<lambda>r. length r = w) rows"
      using that by (rule wf_pad_rows) simp_all
    have content: "placed_at (PILImage (nat pl + w + nat pr)
                (pad_axis (nat pt) (nat pb) (replicate (nat pl + w + nat pr) 0)
                   (map (pad_axis (nat pl) (nat pr) 0) rows)))
              (PILImage w rows) pad_value (nat pt) (nat pl) (length rows) w
              (nat pt + length rows + nat pb) (nat pl + w + nat pr)"
      if "list_all (\<lambda>r. length r = w) rows"
      using that unfolding placed_at_def by (simp add: nth_pad_rows)
    show ?thesis
      using P wf content unfolding PILImage
      by (simp add: pad_pil [OF lr [unfolded hw] tb [unfolded hw]] data_size_def hw sums)
  qed (use assms(1) in simp_all)
qed





section \<open>Padding an image that is large enough; padding twice\<close>

lemma pad_large_enough:
  assumes "is_image data" and "data_size data = Inr (Some (height, width, wc))"
    and "output_height \<le> height" and "output_width \<le> width"
  shows "pad_width_or_height data output_width output_height pad_value ro =
           Inr (if ro then PaddedOffsets data 0 0 0 0 else Padded data)"
proof -
  have z: "pad_split width output_width = Inr (0, 0)" "pad_split height output_height = Inr (0, 0)"
    using assms(3,4) by (simp_all add: pad_split_zero)
  show ?thesis
  proof (cases data)
    case (NDArray a)
    show ?thesis
    proof (cases a)
      case (Array2 w rows)
      with NDArray assms(2) have hw: "height = int (length rows)" "width = int w"
        by (simp_all add: data_size_def)
      show ?thesis unfolding NDArray Array2
        by (simp add: pad_array2 [OF z [unfolded hw]] pad_axis_zero_fun)
    next
      case (Array3 w c rows)
      with NDArray assms(2) have hw: "height = int (length rows)" "width = int w"
        by (simp_all add: data_size_def)
      show ?thesis unfolding NDArray Array3
        by (simp add: pad_array3 [OF z [unfolded hw]] pad_axis_zero_fun)
    qed (use assms(1) NDArray in simp_all)
  next
    case (PILImage w rows)
    with assms(2) have hw: "height = int (length rows)" "width = int w"
      by (simp_all add: data_size_def)
    show ?thesis unfolding PILImage
      by (simp add: pad_pil [OF z [unfolded hw]] pad_axis_zero_fun)
  qed (use assms(1) in simp_all)
qed

text \<open>
  C8. An image whose height and width are at least the target comes back with the same
  content and the four amounts zero. So the result of one padding is left as it is by a
  second padding with the same target.
\<close>

theorem pad_width_or_height_idempotent:
  "(is_image data \<and> data_size data = Inr (Some (height, width, wc)) \<and>
      output_height \<le> height \<and> output_width \<le> width \<longrightarrow>
      pad_width_or_height data output_width output_height pad_value True =
        Inr (PaddedOffsets data 0 0 0 0) \<and>
      pad_width_or_height data output_width output_height pad_value False = Inr (Padded data)) \<and>
   (pad_width_or_height data0 output_width output_height pad_value False = Inr (Padded data') \<longrightarrow>
      pad_width_or_height data' output_width output_height pad_value' False = Inr (Padded data') \<and>
      pad_width_or_height data' output_width output_height pad_value' True =
        Inr (PaddedOffsets data' 0 0 0 0))"
proof (intro conjI impI)
  assume a: "is_image data \<and> data_size data = Inr (Some (height, width, wc)) \<and>
      output_height \<le> height \<and> output_width \<le> width"
  then show "pad_width_or_height data output_width output_height pad_value True =
        Inr (PaddedOffsets data 0 0 0 0)"
    using pad_large_enough [of data height width wc output_height output_width pad_value True]
    by simp
  from a show "pad_width_or_height data output_width output_height pad_value False = Inr (Padded data)"
    using pad_large_enough [of data height width wc output_height output_width pad_value False]
    by simp
next
  assume a: "pad_width_or_height data0 output_width output_height pad_value False = Inr (Padded data')"
  then have img: "is_image data0" by (rule pad_Inr_is_image)
  then obtain height width wc where ds: "data_size data0 = Inr (Some (height, width, wc))"
    using is_image_data_size by blast
  from pad_InrD [OF a ds] obtain pl pr pt pb where
    lr: "pad_split width output_width = Inr (pl, pr)" and
    tb: "pad_split height output_height = Inr (pt, pb)"
    by blast
  from pad_image_result [OF img ds lr tb, of pad_value] a
  have R0: "is_image data'"
    "data_size data' = Inr (Some (pt + height + pb, pl + width + pr, wc))"
    by auto
  have "output_height \<le> pt + height + pb" "output_width \<le> pl + width + pr"
    using pad_split_props(3) [OF lr] pad_split_props(3) [OF tb] by linarith+
  note R = R0 this
  show "pad_width_or_height data' output_width output_height pad_value' False = Inr (Padded data')"
    using pad_large_enough [OF R, of pad_value' False] by simp
  show "pad_width_or_height data' output_width output_height pad_value' True =
        Inr (PaddedOffsets data' 0 0 0 0)"
    using pad_large_enough [OF R, of pad_value' True] by simp
qed

theorem pad_width_or_height_idempotent_witness:
  "is_image (NDArray (Array2 2 [[1, 2], [3, 4 :: int]])) \<and>
   data_size (NDArray (Array2 2 [[1, 2], [3, 4 :: int]])) = Inr (Some (2, 2, False)) \<and>
   pad_width_or_height (NDArray (Array2 2 [[1, 2], [3, 4 :: int]])) 2 1 0 True =
     Inr (PaddedOffsets (NDArray (Array2 2 [[1, 2], [3, 4]])) 0 0 0 0) \<and>
   pad_width_or_height (NDArray (Array2 2 [[1, 2], [3, 4 :: int]])) 2 1 0 False =
     Inr (Padded (NDArray (Array2 2 [[1, 2], [3, 4]]))) \<and>
   pad_width_or_height (NDArray (Array2 1 [[5 :: int]])) 2 1 0 False =
     Inr (Padded (NDArray (Array2 2 [[5, 0]]))) \<and>
   pad_width_or_height (NDArray (Array2 2 [[5, 0 :: int]])) 2 1 7 False =
     Inr (Padded (NDArray (Array2 2 [[5, 0]])))"
proof -
  have 1: "is_image (NDArray (Array2 2 [[1, 2], [3, 4 :: int]]))" by simp
  have 2: "data_size (NDArray (Array2 2 [[1, 2], [3, 4 :: int]])) = Inr (Some (2, 2, False))"
    by (simp add: data_size_def)
  have 5: "pad_width_or_height (NDArray (Array2 1 [[5 :: int]])) 2 1 0 False =
     Inr (Padded (NDArray (Array2 2 [[5, 0]])))"
    by (simp add: pad_width_or_height_def data_size_def pad_data_def pad_split_div pad_axis_def)
  note T = pad_width_or_height_idempotent [of "NDArray (Array2 2 [[1, 2], [3, 4 :: int]])"
      2 2 False 1 2 0 "NDArray (Array2 1 [[5 :: int]])" "NDArray (Array2 2 [[5, 0 :: int]])" 7]
  from T 1 2 have 3: "pad_width_or_height (NDArray (Array2 2 [[1, 2], [3, 4 :: int]])) 2 1 0 True =
     Inr (PaddedOffsets (NDArray (Array2 2 [[1, 2], [3, 4]])) 0 0 0 0)"
    and 4: "pad_width_or_height (NDArray (Array2 2 [[1, 2], [3, 4 :: int]])) 2 1 0 False =
     Inr (Padded (NDArray (Array2 2 [[1, 2], [3, 4]])))"
    by simp_all
  from T 5 have "pad_width_or_height (NDArray (Array2 2 [[5, 0 :: int]])) 2 1 7 False =
     Inr (Padded (NDArray (Array2 2 [[5, 0]])))"
    by blast
  with 1 2 3 4 5 show ?thesis by blast
qed

section \<open>Cropping what was padded\<close>

lemma slice_len_pad: "slice_len (int b) (int b + int n) (b + n + a) = n"
  by (simp add: slice_len_def slice_bound_def)

lemma py_slice_padded_rows:
  assumes "list_all (\<lambda>r. length r = w) rows"
  shows "map (py_slice (int pl) (int pl + int w)) (map (pad_axis pl pr v) rows) = rows"
proof -
  have "py_slice (int pl) (int pl + int w) (pad_axis pl pr v r) = r" if "r \<in> set rows" for r
    using that assms py_slice_pad_axis [of pl r pr v] by (simp add: list_all_iff)
  then show ?thesis by (simp add: map_idI)
qed

lemma crop_padded_rows:
  assumes "list_all (\<lambda>r. length r = w) rows"
  shows "map (py_slice (int pl) (int pl + int w))
           (py_slice (int pt) (int pt + int (length rows))
              (pad_axis pt pb fill (map (pad_axis pl pr v) rows))) = rows"
  using py_slice_pad_axis [of pt "map (pad_axis pl pr v) rows" pb fill]
    py_slice_padded_rows [OF assms]
  by simp

text \<open>
  C9. A well-formed numpy image of rank 2 or 3 and of size \<open>h\<close> by \<open>w\<close>. Whenever
  \<open>pad_width_or_height\<close> returns a padded image with its amounts, \<open>crop_img\<close> on the
  padded image, to \<open>(h, w)\<close> at the offsets \<open>(p_top, p_left)\<close> that the padding
  reported, is the original image again. And the padding does return, for every target
  with a shortfall below \<open>2 ^ 1024\<close> on each axis (at a larger shortfall the division of
  line 59 raises \<open>OverflowError\<close>).
\<close>

theorem pad_then_crop_roundtrip:
  assumes "wf_array a" and "ndim a = 2 \<or> ndim a = 3"
    and "shape_axis a 0 = Inr h" and "shape_axis a 1 = Inr w"
  shows "(pad_width_or_height (NDArray a) output_width output_height pad_value True =
            Inr (PaddedOffsets padded0 p_top0 p_bottom0 p_left0 p_right0) \<longrightarrow>
          crop_img padded0 (Tuple h w) p_top0 p_left0 = Inr (NDArray a)) \<and>
     (output_width - w < 2 ^ 1024 \<and> output_height - h < 2 ^ 1024 \<longrightarrow>
        (\<exists>padded p_top p_bottom p_left p_right.
           pad_width_or_height (NDArray a) output_width output_height pad_value True =
             Inr (PaddedOffsets padded p_top p_bottom p_left p_right) \<and>
           crop_img padded (Tuple h w) p_top p_left = Inr (NDArray a)))"
proof -
  have ds: "data_size (NDArray a) = Inr (Some (h, w, ndim a = 3))"
    using assms(3,4) by (simp add: data_size_def)
  have crop: "\<exists>padded.
       pad_width_or_height (NDArray a) output_width output_height pad_value True =
         Inr (PaddedOffsets padded pt pb pl pr) \<and>
       crop_img padded (Tuple h w) pt pl = Inr (NDArray a)"
    if lr: "pad_split w output_width = Inr (pl, pr)"
      and tb: "pad_split h output_height = Inr (pt, pb)" for pl pr pt pb
  proof -
    note P = pad_split_props(1,2) [OF lr] pad_split_props(1,2) [OF tb]
    show ?thesis
    proof (cases a)
      case (Array2 wd rows)
      with assms(3,4) have hw: "h = int (length rows)" "w = int wd" by simp_all
      from assms(1) Array2 have wf: "list_all (\<lambda>r. length r = wd) rows" by simp
      have "crop_img (NDArray (Array2 (nat pl + wd + nat pr)
                  (pad_axis (nat pt) (nat pb) (replicate (nat pl + wd + nat pr) pad_value)
                     (map (pad_axis (nat pl) (nat pr) pad_value) rows))))
               (Tuple h w) pt pl = Inr (NDArray a)"
        using P crop_padded_rows [OF wf, of "nat pl" "nat pt" "nat pb" _ "nat pr" pad_value]
          slice_len_pad [of "nat pl" wd "nat pr"]
        by (simp add: crop_img_def img_dim_def Array2 hw)
      then show ?thesis unfolding Array2
        by (simp add: pad_array2 [OF lr [unfolded hw] tb [unfolded hw]] hw Array2)
    next
      case (Array3 wd c rows)
      with assms(3,4) have hw: "h = int (length rows)" "w = int wd" by simp_all
      from assms(1) Array3 have wf: "list_all (\<lambda>r. length r = wd) rows"
        by (simp add: list_all_iff)
      have "crop_img (NDArray (Array3 (nat pl + wd + nat pr) c
                  (pad_axis (nat pt) (nat pb) (replicate (nat pl + wd + nat pr) (replicate c pad_value))
                     (map (pad_axis (nat pl) (nat pr) (replicate c pad_value)) rows))))
               (Tuple h w) pt pl = Inr (NDArray a)"
        using P crop_padded_rows [OF wf, of "nat pl" "nat pt" "nat pb" _ "nat pr" "replicate c pad_value"]
          slice_len_pad [of "nat pl" wd "nat pr"]
        by (simp add: crop_img_def img_dim_def Array3 hw)
      then show ?thesis unfolding Array3
        by (simp add: pad_array3 [OF lr [unfolded hw] tb [unfolded hw]] hw Array3)
    qed (use assms(2) in simp_all)
  qed
  show ?thesis
  proof (intro conjI impI)
    assume run: "pad_width_or_height (NDArray a) output_width output_height pad_value True =
            Inr (PaddedOffsets padded0 p_top0 p_bottom0 p_left0 p_right0)"
    from pad_InrD [OF run ds] obtain pl pr pt pb where
      lr: "pad_split w output_width = Inr (pl, pr)" and
      tb: "pad_split h output_height = Inr (pt, pb)"
      by blast
    from crop [OF lr tb] run
    show "crop_img padded0 (Tuple h w) p_top0 p_left0 = Inr (NDArray a)" by auto
  next
    assume "output_width - w < 2 ^ 1024 \<and> output_height - h < 2 ^ 1024"
    then obtain pl pr pt pb where
      lr: "pad_split w output_width = Inr (pl, pr)" and
      tb: "pad_split h output_height = Inr (pt, pb)"
      using pad_split_total [of output_width w] pad_split_total [of output_height h] by blast
    from crop [OF lr tb]
    show "\<exists>padded p_top p_bottom p_left p_right.
           pad_width_or_height (NDArray a) output_width output_height pad_value True =
             Inr (PaddedOffsets padded p_top p_bottom p_left p_right) \<and>
           crop_img padded (Tuple h w) p_top p_left = Inr (NDArray a)"
      by blast
  qed
qed

theorem pad_then_crop_roundtrip_witness:
  "wf_array (Array2 2 [[1, 2 :: int]]) \<and> shape_axis (Array2 2 [[1, 2 :: int]]) 0 = Inr 1 \<and>
   shape_axis (Array2 2 [[1, 2 :: int]]) 1 = Inr 2 \<and>
   pad_width_or_height (NDArray (Array2 2 [[1, 2 :: int]])) 3 3 0 True =
     Inr (PaddedOffsets (NDArray (Array2 3 [[0, 0, 0], [1, 2, 0], [0, 0, 0]])) 1 1 0 1) \<and>
   crop_img (NDArray (Array2 3 [[0, 0, 0], [1, 2, 0], [0, 0, 0 :: int]])) (Tuple 1 2) 1 0 =
     Inr (NDArray (Array2 2 [[1, 2]]))"
proof -
  have 1: "wf_array (Array2 2 [[1, 2 :: int]])" by simp
  have 2: "ndim (Array2 2 [[1, 2 :: int]]) = 2 \<or> ndim (Array2 2 [[1, 2 :: int]]) = 3" by simp
  have 3: "shape_axis (Array2 2 [[1, 2 :: int]]) 0 = Inr 1" by simp
  have 4: "shape_axis (Array2 2 [[1, 2 :: int]]) 1 = Inr 2" by simp
  have 5: "pad_width_or_height (NDArray (Array2 2 [[1, 2 :: int]])) 3 3 0 True =
     Inr (PaddedOffsets (NDArray (Array2 3 [[0, 0, 0], [1, 2, 0], [0, 0, 0]])) 1 1 0 1)"
    by (simp add: pad_width_or_height_def data_size_def pad_data_def pad_split_div pad_axis_def
        numeral_3_eq_3)
  from pad_then_crop_roundtrip [OF 1 2 3 4, of 3 3 0
      "NDArray (Array2 3 [[0, 0, 0], [1, 2, 0], [0, 0, 0]])" 1 1 0 1, THEN conjunct1] 5
  have "crop_img (NDArray (Array2 3 [[0, 0, 0], [1, 2, 0], [0, 0, 0 :: int]])) (Tuple 1 2) 1 0 =
     Inr (NDArray (Array2 2 [[1, 2]]))"
    by simp
  with 1 3 4 5 show ?thesis by blast
qed

section \<open>The errors of \<open>scale_crop\<close>\<close>






section \<open>The size of the image \<open>scale_crop\<close> returns\<close>

text \<open>What a successful run of the image part went through.\<close>

lemma scale_crop_image_InrD:
  assumes "scale_crop_image rescale imsave img crop_size h_offset w_offset scale_factor
             debug debug_root = Inr (out, p_top, p_bottom, p_left, p_right)"
    and "crop_hw crop_size = (crop_height, crop_width)"
  shows "\<exists>a scaled cropped small.
     img = NDArray a \<and> (ndim a = 2 \<or> ndim a = 3) \<and>
     rescale a scale_factor (if ndim a = 3 then Some 2 else None) = Inr scaled \<and>
     crop_img (NDArray scaled) crop_size h_offset w_offset = Inr cropped \<and>
     smaller_than_crop cropped crop_height crop_width = Inr small \<and>
     (if small then
        pad_width_or_height cropped crop_width crop_height 0 True =
          Inr (PaddedOffsets out p_top p_bottom p_left p_right)
      else out = cropped \<and> p_top = 0 \<and> p_bottom = 0 \<and> p_left = 0 \<and> p_right = 0)"
proof (cases img)
  case (NDArray a)
  from assms(1) have "bindR (debug_save imsave debug debug_root ''0_input.png'' img) (\<lambda>_.
           bindR (if ndim a = 3 then rescale a scale_factor (Some 2)
                  else if ndim a = 2 then rescale a scale_factor None
                  else Inl (RuntimeError ''invalid input image dimension num'')) (\<lambda>scaled.
           bindR (debug_save imsave debug debug_root ''1_scaled.png'' (NDArray scaled)) (\<lambda>_.
           bindR (crop_img (NDArray scaled) crop_size h_offset w_offset) (\<lambda>cropped.
           bindR (debug_save imsave debug debug_root ''2_cropped.png'' cropped) (\<lambda>_.
           bindR (smaller_than_crop cropped crop_height crop_width) (\<lambda>small.
           bindR (if small then
                    bindR (pad_width_or_height cropped crop_width crop_height 0 True) (\<lambda>r.
                      case r of
                        PaddedOffsets padded p_top p_bottom p_left p_right \<Rightarrow>
                          Inr (padded, p_top, p_bottom, p_left, p_right)
                      | Padded padded \<Rightarrow> Inl (ValueError ''cannot unpack''))
                  else Inr (cropped, 0, 0, 0, 0)) (\<lambda>res.
           bindR (debug_save imsave debug debug_root ''3_padded.png'' (fst res)) (\<lambda>_.
             Inr res)))))))) = Inr (out, p_top, p_bottom, p_left, p_right)"
    unfolding NDArray scale_crop_image_def by (simp add: assms(2))
  then obtain scaled cropped small where
    1: "(if ndim a = 3 then rescale a scale_factor (Some 2)
         else if ndim a = 2 then rescale a scale_factor None
         else Inl (RuntimeError ''invalid input image dimension num'')) = Inr scaled"
    and 2: "crop_img (NDArray scaled) crop_size h_offset w_offset = Inr cropped"
    and 3: "smaller_than_crop cropped crop_height crop_width = Inr small"
    and 4: "(if small then
                    bindR (pad_width_or_height cropped crop_width crop_height 0 True) (\<lambda>r.
                      case r of
                        PaddedOffsets padded p_top p_bottom p_left p_right \<Rightarrow>
                          Inr (padded, p_top, p_bottom, p_left, p_right)
                      | Padded padded \<Rightarrow> Inl (ValueError ''cannot unpack''))
                  else Inr (cropped, 0, 0, 0, 0)) = Inr (out, p_top, p_bottom, p_left, p_right)"
    unfolding bindR_Inr_iff by blast
  from 1 have r: "ndim a = 2 \<or> ndim a = 3"
    and r': "rescale a scale_factor (if ndim a = 3 then Some 2 else None) = Inr scaled"
    by (auto split: if_splits)
  from 4 have "if small then
        pad_width_or_height cropped crop_width crop_height 0 True =
          Inr (PaddedOffsets out p_top p_bottom p_left p_right)
      else out = cropped \<and> p_top = 0 \<and> p_bottom = 0 \<and> p_left = 0 \<and> p_right = 0"
  proof (cases small)
    case True
    with 4 obtain r where p: "pad_width_or_height cropped crop_width crop_height 0 True = Inr r"
      and c: "(case r of
                 PaddedOffsets padded p_top p_bottom p_left p_right \<Rightarrow>
                   Inr (padded, p_top, p_bottom, p_left, p_right)
               | Padded padded \<Rightarrow> Inl (ValueError ''cannot unpack'')) =
              Inr (out, p_top, p_bottom, p_left, p_right)"
      by (auto simp add: bindR_Inr_iff)
    from c have "r = PaddedOffsets out p_top p_bottom p_left p_right" by (cases r) simp_all
    with p True show ?thesis by simp
  next
    case False
    with 4 show ?thesis by simp
  qed
  with NDArray r r' 2 3 show ?thesis by blast
qed (use assms in \<open>simp_all add: scale_crop_image_def\<close>)

lemma scale_crop_InrD:
  assumes "scale_crop np_dot rescale imsave img crop_size h_offset w_offset scale_factor K
             debug debug_root = Inr res"
  shows "\<exists>p_top p_bottom p_left p_right.
     scale_crop_image rescale imsave img crop_size h_offset w_offset scale_factor
       debug debug_root = Inr (result_image res, p_top, p_bottom, p_left, p_right) \<and>
     (case K of
        None \<Rightarrow> res = ImageOnly (result_image res)
      | Some k \<Rightarrow> \<exists>K_aug. adjust_intrinsic np_dot k scale_factor h_offset w_offset p_left p_top = Inr K_aug \<and>
                    res = ImageWithK (result_image res) K_aug)"
  using assms unfolding scale_crop_def
  by (auto simp add: bindR_Inr_iff split: option.splits)

lemma scale_crop_image_size:
  assumes run: "scale_crop_image rescale imsave img crop_size h_offset w_offset scale_factor
             debug debug_root = Inr (out, p_top, p_bottom, p_left, p_right)"
    and hw: "crop_hw crop_size = (crop_height, crop_width)"
    and nonneg: "0 \<le> crop_height" "0 \<le> crop_width"
  shows "\<exists>arr. out = NDArray arr \<and> (ndim arr = 2 \<or> ndim arr = 3) \<and>
     shape_axis arr 0 = Inr crop_height \<and> shape_axis arr 1 = Inr crop_width \<and>
     (rectangular_results rescale \<longrightarrow> wf_array arr)"
proof -
  from scale_crop_image_InrD [OF run hw] obtain a scaled cropped small where S:
    "img = NDArray a" "ndim a = 2 \<or> ndim a = 3"
    "rescale a scale_factor (if ndim a = 3 then Some 2 else None) = Inr scaled"
    "crop_img (NDArray scaled) crop_size h_offset w_offset = Inr cropped"
    "smaller_than_crop cropped crop_height crop_width = Inr small"
    "if small then
        pad_width_or_height cropped crop_width crop_height 0 True =
          Inr (PaddedOffsets out p_top p_bottom p_left p_right)
      else out = cropped \<and> p_top = 0 \<and> p_bottom = 0 \<and> p_left = 0 \<and> p_right = 0"
    by blast
  from S(5) have "cropped \<noteq> PyNone"
    by (auto simp add: smaller_than_crop_def shape_at_def)
  with crop_img_ndarray [OF S(4) hw] nonneg obtain c s0 s1 where C:
    "cropped = NDArray c" "ndim c = 2 \<or> ndim c = 3"
    "shape_axis c 0 = Inr s0" "shape_axis c 1 = Inr s1" "s0 \<le> crop_height" "s1 \<le> crop_width"
    "wf_array scaled \<longrightarrow> wf_array c"
    by auto
  from S(5) C have small: "small \<longleftrightarrow> s0 < crop_height \<or> s1 < crop_width"
    by (auto simp add: smaller_than_crop_def shape_at_def split: if_splits)
  have wfc: "rectangular_results rescale \<longrightarrow> wf_array c"
    using S(3) C(7) unfolding rectangular_results_def by blast
  show ?thesis
  proof (cases small)
    case False
    with small C(5,6) have "s0 = crop_height" "s1 = crop_width" by linarith+
    with False S(6) C wfc show ?thesis by simp
  next
    case True
    from C(2) have img: "is_image cropped" unfolding C(1) by (cases c) simp_all
    from C have ds: "data_size cropped = Inr (Some (s0, s1, ndim c = 3))"
      by (simp add: data_size_def)
    from True S(6) have padded: "pad_width_or_height cropped crop_width crop_height 0 True =
        Inr (PaddedOffsets out p_top p_bottom p_left p_right)"
      by simp
    from pad_InrD [OF padded ds] obtain pl pr pt pb where
      lr: "pad_split s1 crop_width = Inr (pl, pr)" and
      tb: "pad_split s0 crop_height = Inr (pt, pb)"
      by blast
    from pad_image_result [OF img ds lr tb, of 0] True S(6) C(1)
    obtain o' where O: "out = NDArray o'" "ndim o' = ndim c" "wf_array c \<longrightarrow> wf_array o'"
      "data_size out = Inr (Some (pt + s0 + pb, pl + s1 + pr, ndim c = 3))"
      by auto
    have "pt + s0 + pb = crop_height" "pl + s1 + pr = crop_width"
      using pad_split_props(3) [OF lr] pad_split_props(3) [OF tb] C(5,6) by linarith+
    with O(4) have sz: "data_size out = Inr (Some (crop_height, crop_width, ndim c = 3))" by simp
    from C(2) O(2) have r: "ndim o' = 2 \<or> ndim o' = 3" by simp
    from sz r have "shape_axis o' 0 = Inr crop_height \<and> shape_axis o' 1 = Inr crop_width"
      unfolding O(1) by (cases o') (simp_all add: data_size_def)
    with O r wfc show ?thesis by blast
  qed
qed

text \<open>
  C1. When \<open>scale_crop\<close> returns, and the crop height and width are not negative, the
  image it returns is a numpy array of rank 2 or 3 with exactly \<open>crop_height\<close> rows and
  \<open>crop_width\<close> columns, padded or not; it is rectangular when \<open>rescale\<close> returns
  rectangular arrays.
\<close>

theorem scale_crop_output_size:
  assumes "scale_crop np_dot rescale imsave img crop_size h_offset w_offset scale_factor K
             debug debug_root = Inr res"
    and "crop_hw crop_size = (crop_height, crop_width)"
    and "0 \<le> crop_height" and "0 \<le> crop_width"
  shows "\<exists>arr. result_image res = NDArray arr \<and> (ndim arr = 2 \<or> ndim arr = 3) \<and>
     shape_axis arr 0 = Inr crop_height \<and> shape_axis arr 1 = Inr crop_width \<and>
     (rectangular_results rescale \<longrightarrow> wf_array arr)"
proof -
  from scale_crop_InrD [OF assms(1)] obtain p_top p_bottom p_left p_right where
    "scale_crop_image rescale imsave img crop_size h_offset w_offset scale_factor
       debug debug_root = Inr (result_image res, p_top, p_bottom, p_left, p_right)"
    by blast
  from scale_crop_image_size [OF this assms(2,3,4)] show ?thesis .
qed

lemma scale_crop_example_padded:
  "scale_crop dot_rounded rescale_at_one (\<lambda>p x. None)
     (NDArray (Array2 3 [[1, 2, 3], [4, 5, 6], [7, 8, 9 :: real]])) (Tuple 2 4) 1 1 1 None
     False None = Inr (ImageOnly (NDArray (Array2 4 [[0, 5, 6, 0], [0, 8, 9, 0]])))"
  by (simp add: scale_crop_def scale_crop_image_def debug_save_def rescale_at_one_def
      crop_img_def img_dim_def py_slice_def slice_bound_def slice_len_def
      smaller_than_crop_def shape_at_def pad_width_or_height_def data_size_def pad_data_def
      pad_split_div pad_axis_def eval_nat_numeral)

theorem scale_crop_output_size_witness:
  "scale_crop dot_rounded rescale_at_one (\<lambda>p x. None)
     (NDArray (Array2 3 [[1, 2, 3], [4, 5, 6], [7, 8, 9 :: real]])) (Tuple 2 4) 1 1 1 None
     False None = Inr (ImageOnly (NDArray (Array2 4 [[0, 5, 6, 0], [0, 8, 9, 0]]))) \<and>
   crop_hw (Tuple 2 4) = (2, 4) \<and> (0 :: int) \<le> 2 \<and> (0 :: int) \<le> 4 \<and>
   rectangular_results (rescale_at_one :: real ndarray \<Rightarrow> real \<Rightarrow> nat option \<Rightarrow> error + real ndarray) \<and>
   shape_axis (Array2 4 [[0, 5, 6, 0], [0, 8, 9, 0 :: real]]) 0 = Inr 2 \<and>
   shape_axis (Array2 4 [[0, 5, 6, 0], [0, 8, 9, 0 :: real]]) 1 = Inr 4 \<and>
   wf_array (Array2 4 [[0, 5, 6, 0], [0, 8, 9, 0 :: real]])"
proof -
  have wf: "rectangular_results (rescale_at_one :: real ndarray \<Rightarrow> real \<Rightarrow> nat option \<Rightarrow> error + real ndarray)"
    by (auto simp add: rectangular_results_def rescale_at_one_def split: if_splits)
  have hw: "crop_hw (Tuple 2 4) = (2, 4)" by simp
  from scale_crop_output_size [OF scale_crop_example_padded hw] wf
  have "shape_axis (Array2 4 [[0, 5, 6, 0], [0, 8, 9, 0 :: real]]) 0 = Inr 2 \<and>
        shape_axis (Array2 4 [[0, 5, 6, 0], [0, 8, 9, 0 :: real]]) 1 = Inr 4 \<and>
        wf_array (Array2 4 [[0, 5, 6, 0], [0, 8, 9, 0 :: real]])"
    by auto
  with scale_crop_example_padded wf hw show ?thesis by simp
qed

text \<open>
  With a negative crop size the slices \<open>img[0:-1, 0:-1]\<close> drop the last row and the last
  column, nothing is padded, and a 3 by 3 image comes back 2 by 2 for a crop size of -1.
\<close>

theorem scale_crop_negative_crop_size:
  "scale_crop dot_rounded rescale_at_one (\<lambda>p x. None)
     (NDArray (Array2 3 [[1, 2, 3], [4, 5, 6], [7, 8, 9 :: real]])) (Scalar (- 1)) 0 0 1 None
     False None = Inr (ImageOnly (NDArray (Array2 2 [[1, 2], [4, 5]]))) \<and>
   crop_hw (Scalar (- 1)) = (- 1, - 1) \<and>
   shape_axis (Array2 2 [[1, 2], [4, 5 :: real]]) 0 = Inr 2 \<and>
   shape_axis (Array2 2 [[1, 2], [4, 5 :: real]]) 1 = Inr 2"
  by (simp add: scale_crop_def scale_crop_image_def debug_save_def rescale_at_one_def
      crop_img_def img_dim_def py_slice_def slice_bound_def slice_len_def
      smaller_than_crop_def shape_at_def eval_nat_numeral)

section \<open>The intrinsic\<close>

lemma length3E:
  assumes "length xs = 3"
  obtains a b c where "xs = [a, b, c]"
  using assms by (auto simp add: numeral_3_eq_3 length_Suc_conv)

lemma is_3x3E:
  assumes "is_3x3 K"
  obtains a b c d e f g h i where "K = [[a, b, c], [d, e, f], [g, h, i]]"
proof -
  from assms have l: "length K = 3" and r: "\<forall>r \<in> set K. length r = 3"
    by (simp_all add: is_3x3_def list_all_iff)
  from l obtain r1 r2 r3 where K: "K = [r1, r2, r3]" by (rule length3E)
  with r have "length r1 = 3" "length r2 = 3" "length r3 = 3" by simp_all
  then show ?thesis using K that by (elim length3E) blast
qed

lemma eye3: "eye 3 = [[Finite 1, Finite 0, Finite 0], [Finite 0, Finite 1, Finite 0], [Finite 0, Finite 0, Finite 1]]"
  by (simp add: eye_def numeral_3_eq_3 upt_rec)

lemma spec_matmul_shape:
  "\<exists>a b c d e f g h i. spec_matmul A B = [[a, b, c], [d, e, f], [g, h, i]]"
  by (simp add: spec_matmul_def)

lemma is_3x3_spec_matmul: "is_3x3 (spec_matmul A B)"
  by (simp add: spec_matmul_def is_3x3_def)

lemma is_3x3_spec [simp]:
  "is_3x3 (spec_Ks s)" "is_3x3 (spec_Kc w h)" "is_3x3 (spec_Kp l t)"
  by (simp_all add: is_3x3_def spec_Ks_def spec_Kc_def spec_Kp_def)

text \<open>
  For offsets and pad amounts below \<open>2 ^ 53\<close> in magnitude the conversions to float
  are exact, and the three matrices that the code builds are those of the
  specification.
\<close>

lemma adjust_intrinsic_spec:
  assumes "\<bar>h_offset\<bar> < 2 ^ 53" and "\<bar>w_offset\<bar> < 2 ^ 53"
    and "\<bar>p_left\<bar> < 2 ^ 53" and "\<bar>p_top\<bar> < 2 ^ 53"
  shows "adjust_intrinsic np_dot K scale_factor h_offset w_offset p_left p_top =
     bindR (np_dot (floats (spec_Ks scale_factor)) K) (\<lambda>m1.
     bindR (np_dot (floats (spec_Kc w_offset h_offset)) m1) (\<lambda>m2.
       np_dot (floats (spec_Kp p_left p_top)) m2))"
proof -
  have Ks: "set_entry (set_entry (eye 3) 0 0 (Finite scale_factor)) 1 1 (Finite scale_factor) =
      floats (spec_Ks scale_factor)"
    by (simp add: eye3 set_entry_def spec_Ks_def floats_def)
  have Kc: "set_entry (set_entry (eye 3) 0 2 (Finite (- real_of_int w_offset))) 1 2
              (Finite (- real_of_int h_offset)) = floats (spec_Kc w_offset h_offset)"
    by (simp add: eye3 set_entry_def spec_Kc_def floats_def)
  have Kp: "set_entry (set_entry (eye 3) 0 2 (Finite (real_of_int p_left))) 1 2
              (Finite (real_of_int p_top)) = floats (spec_Kp p_left p_top)"
    by (simp add: eye3 set_entry_def spec_Kp_def floats_def)
  show ?thesis
    unfolding adjust_intrinsic_def Let_def float_of_int_small [OF assms(1)]
      float_of_int_small [OF assms(2)] float_of_int_small [OF assms(3)]
      float_of_int_small [OF assms(4)] bindR_Inr
      fmul_minus_one_int [OF assms(1)] fmul_minus_one_int [OF assms(2)] Ks Kc Kp ..
qed

text \<open>The textbook loop is exact on small integer products.\<close>

lemma dot_entry_exact:
  assumes "p \<in> \<int>" and "q \<in> \<int>" and "r \<in> \<int>" and "\<bar>p\<bar> + \<bar>q\<bar> + \<bar>r\<bar> < 2 ^ 53"
  shows "fadd (fadd (fadd (Finite 0) (rnd64 p)) (rnd64 q)) (rnd64 r) = Finite (p + q + r)"
proof -
  have b: "\<bar>p\<bar> < 2 ^ 53" "\<bar>q\<bar> < 2 ^ 53" "\<bar>r\<bar> < 2 ^ 53" "\<bar>p + q\<bar> < 2 ^ 53"
    "\<bar>p + q + r\<bar> < 2 ^ 53"
    using assms(4) by linarith+
  have 1: "rnd64 p = Finite p" "rnd64 q = Finite q" "rnd64 r = Finite r"
    using assms(1,2,3) b(1,2,3) by (simp_all add: rnd64_Ints)
  have 2: "rnd64 (p + q) = Finite (p + q)"
    using assms(1,2) b(4) by (intro rnd64_Ints) simp_all
  have 3: "rnd64 (p + q + r) = Finite (p + q + r)"
    using assms(1,2,3) b(5) by (intro rnd64_Ints) simp_all
  show ?thesis by (simp add: 1 2 3)
qed

lemma dot_rounded_exact: "dot_exact_on_integers dot_rounded"
  unfolding dot_exact_on_integers_def
proof (intro allI impI)
  fix A B :: real_matrix
  assume h: "is_3x3 A \<and> is_3x3 B \<and> small_integer_products A B"
  then obtain a1 a2 a3 b1 b2 b3 c1 c2 c3 where A: "A = [[a1, a2, a3], [b1, b2, b3], [c1, c2, c3]]"
    by (elim conjE is_3x3E)
  from h obtain a b c d e f g h' i where B: "B = [[a, b, c], [d, e, f], [g, h', i]]"
    by (elim conjE is_3x3E)
  from h have s: "small_integer_products A B" by simp
  show "dot_rounded (floats A) (floats B) = Inr (floats (spec_matmul A B))"
    using s unfolding A B small_integer_products_def
    by (simp add: dot_rounded_def floats_def spec_matmul_def dot_entry_exact)
qed

text \<open>Two roundings, for the example of a rounded product below.\<close>

lemma rnd64_third: "rnd64 (6004799503160661 / 18014398509481984) = Finite (6004799503160661 / 18014398509481984)"
  by (rule rnd64_exact [where m = 6004799503160661 and k = "- 54"])
     (simp_all add: powr_minus powr_realpow [symmetric] flip: powr_numeral)

lemma rnd64_tie_one: "rnd64 (18014398509481983 / 18014398509481984) = Finite 1"
proof -
  have a: "2 powr real_of_int (- 1) \<le> \<bar>18014398509481983 / 18014398509481984 :: real\<bar>"
    by (simp add: powr_minus)
  have b: "\<bar>18014398509481983 / 18014398509481984 :: real\<bar> < 2 powr (real_of_int (- 1) + 1)"
    by simp
  have u: "(2 :: real) powr real_of_int (max (- 1 - 52) (- 1074)) = 1 / 9007199254740992"
    by (simp add: powr_minus field_simps)
  have "\<lfloor>18014398509481983 / 2 :: real\<rfloor> = 9007199254740991" by (simp add: floor_eq_iff)
  then have r: "rne (18014398509481983 / 2) = 9007199254740992" by (simp add: rne_def Let_def)
  show ?thesis unfolding rnd64_at [OF a b] u by (simp add: Let_def r)
qed


text \<open>
  C2. When the image part of \<open>scale_crop\<close> succeeds with pad amounts \<open>p_left\<close> and
  \<open>p_top\<close>, the offsets and these amounts are below \<open>2 ^ 53\<close> in magnitude, and an
  intrinsic \<open>K\<close> is given:

  \<^item> \<open>scale_crop\<close> returns what numpy's product gives for \<open>Kp \<cdot> (Kc \<cdot> (Ks \<cdot> K))\<close>,
    computed in this order on the three matrices of the specification, or raises what
    the product raises;

  \<^item> when that product is exact on small integer products, and the three products of
    the composition are of this kind, the intrinsic returned is the product
    \<open>Kp \<cdot> (Kc \<cdot> (Ks \<cdot> K))\<close> over the reals;

  \<^item> so for \<open>K = [[500,0,320],[0,500,240],[0,0,1]]\<close>, scale factor 1/2, offsets
    \<open>(10, 20)\<close> and no padding it is \<open>[[250,0,140],[0,250,110],[0,0,1]]\<close>.
\<close>

theorem scale_crop_intrinsic:
  assumes "scale_crop_image rescale imsave img crop_size h_offset w_offset scale_factor
             debug debug_root = Inr (out, p_top, p_bottom, p_left, p_right)"
    and "\<bar>h_offset\<bar> < 2 ^ 53" and "\<bar>w_offset\<bar> < 2 ^ 53"
    and "\<bar>p_left\<bar> < 2 ^ 53" and "\<bar>p_top\<bar> < 2 ^ 53"
  shows "scale_crop np_dot rescale imsave img crop_size h_offset w_offset scale_factor (Some K)
           debug debug_root =
         bindR (np_dot (floats (spec_Ks scale_factor)) K) (\<lambda>m1.
         bindR (np_dot (floats (spec_Kc w_offset h_offset)) m1) (\<lambda>m2.
         bindR (np_dot (floats (spec_Kp p_left p_top)) m2) (\<lambda>K_aug.
           Inr (ImageWithK out K_aug)))) \<and>
     (dot_exact_on_integers np_dot \<and> K = floats Kr \<and> is_3x3 Kr \<and>
      small_integer_products (spec_Ks scale_factor) Kr \<and>
      small_integer_products (spec_Kc w_offset h_offset) (spec_matmul (spec_Ks scale_factor) Kr) \<and>
      small_integer_products (spec_Kp p_left p_top)
        (spec_matmul (spec_Kc w_offset h_offset) (spec_matmul (spec_Ks scale_factor) Kr)) \<longrightarrow>
        scale_crop np_dot rescale imsave img crop_size h_offset w_offset scale_factor (Some K)
          debug debug_root =
        Inr (ImageWithK out
          (floats (spec_matmul (spec_Kp p_left p_top)
             (spec_matmul (spec_Kc w_offset h_offset) (spec_matmul (spec_Ks scale_factor) Kr)))))) \<and>
     (dot_exact_on_integers np_dot \<and> K = floats [[500, 0, 320], [0, 500, 240], [0, 0, 1]] \<and>
      scale_factor = 1 / 2 \<and> h_offset = 10 \<and> w_offset = 20 \<and> p_left = 0 \<and> p_top = 0 \<longrightarrow>
        scale_crop np_dot rescale imsave img crop_size h_offset w_offset scale_factor (Some K)
          debug debug_root =
        Inr (ImageWithK out (floats [[250, 0, 140], [0, 250, 110], [0, 0, 1]])))"
proof -
  have run: "scale_crop np_dot rescale imsave img crop_size h_offset w_offset scale_factor (Some K)
           debug debug_root =
         bindR (np_dot (floats (spec_Ks scale_factor)) K) (\<lambda>m1.
         bindR (np_dot (floats (spec_Kc w_offset h_offset)) m1) (\<lambda>m2.
         bindR (np_dot (floats (spec_Kp p_left p_top)) m2) (\<lambda>K_aug.
           Inr (ImageWithK out K_aug))))"
    unfolding scale_crop_def
    by (simp add: assms(1) adjust_intrinsic_spec [OF assms(2-5)] bindR_def split: sum.splits)
  have exact: "scale_crop np_dot rescale imsave img crop_size h_offset w_offset scale_factor (Some K)
          debug debug_root =
        Inr (ImageWithK out
          (floats (spec_matmul (spec_Kp p_left p_top)
             (spec_matmul (spec_Kc w_offset h_offset) (spec_matmul (spec_Ks scale_factor) M)))))"
    if c: "dot_exact_on_integers np_dot" and K: "K = floats M" and M: "is_3x3 M"
      and s1: "small_integer_products (spec_Ks scale_factor) M"
      and s2: "small_integer_products (spec_Kc w_offset h_offset) (spec_matmul (spec_Ks scale_factor) M)"
      and s3: "small_integer_products (spec_Kp p_left p_top)
        (spec_matmul (spec_Kc w_offset h_offset) (spec_matmul (spec_Ks scale_factor) M))"
    for M
  proof -
    note d = c [unfolded dot_exact_on_integers_def, rule_format]
    have 1: "np_dot (floats (spec_Ks scale_factor)) K =
        Inr (floats (spec_matmul (spec_Ks scale_factor) M))"
      unfolding K using M s1 by (intro d) simp
    have 2: "np_dot (floats (spec_Kc w_offset h_offset)) (floats (spec_matmul (spec_Ks scale_factor) M)) =
        Inr (floats (spec_matmul (spec_Kc w_offset h_offset) (spec_matmul (spec_Ks scale_factor) M)))"
      using s2 by (intro d) (simp add: is_3x3_spec_matmul)
    have 3: "np_dot (floats (spec_Kp p_left p_top))
          (floats (spec_matmul (spec_Kc w_offset h_offset) (spec_matmul (spec_Ks scale_factor) M))) =
        Inr (floats (spec_matmul (spec_Kp p_left p_top)
          (spec_matmul (spec_Kc w_offset h_offset) (spec_matmul (spec_Ks scale_factor) M))))"
      using s3 by (intro d) (simp add: is_3x3_spec_matmul)
    show ?thesis unfolding run by (simp add: 1 2 3)
  qed
  show ?thesis
  proof (intro conjI impI)
    show "scale_crop np_dot rescale imsave img crop_size h_offset w_offset scale_factor (Some K)
           debug debug_root =
         bindR (np_dot (floats (spec_Ks scale_factor)) K) (\<lambda>m1.
         bindR (np_dot (floats (spec_Kc w_offset h_offset)) m1) (\<lambda>m2.
         bindR (np_dot (floats (spec_Kp p_left p_top)) m2) (\<lambda>K_aug.
           Inr (ImageWithK out K_aug))))"
      by (rule run)
  next
    assume "dot_exact_on_integers np_dot \<and> K = floats Kr \<and> is_3x3 Kr \<and>
      small_integer_products (spec_Ks scale_factor) Kr \<and>
      small_integer_products (spec_Kc w_offset h_offset) (spec_matmul (spec_Ks scale_factor) Kr) \<and>
      small_integer_products (spec_Kp p_left p_top)
        (spec_matmul (spec_Kc w_offset h_offset) (spec_matmul (spec_Ks scale_factor) Kr))"
    then show "scale_crop np_dot rescale imsave img crop_size h_offset w_offset scale_factor (Some K)
          debug debug_root =
        Inr (ImageWithK out
          (floats (spec_matmul (spec_Kp p_left p_top)
             (spec_matmul (spec_Kc w_offset h_offset) (spec_matmul (spec_Ks scale_factor) Kr)))))"
      by (intro exact) simp_all
  next
    assume a: "dot_exact_on_integers np_dot \<and> K = floats [[500, 0, 320], [0, 500, 240], [0, 0, 1]] \<and>
      scale_factor = 1 / 2 \<and> h_offset = 10 \<and> w_offset = 20 \<and> p_left = 0 \<and> p_top = 0"
    then have e: "scale_factor = 1 / 2" "h_offset = 10" "w_offset = 20" "p_left = 0" "p_top = 0"
      by simp_all
    have m1: "spec_matmul (spec_Ks (1 / 2)) [[500, 0, 320], [0, 500, 240], [0, 0, 1]] =
        [[250, 0, 160], [0, 250, 120], [0, 0, 1]]"
      by (simp add: spec_matmul_def spec_Ks_def)
    have m2: "spec_matmul (spec_Kc 20 10) [[250, 0, 160], [0, 250, 120], [0, 0, 1]] =
        [[250, 0, 140], [0, 250, 110], [0, 0, 1]]"
      by (simp add: spec_matmul_def spec_Kc_def)
    have m3: "spec_matmul (spec_Kp 0 0) [[250, 0, 140], [0, 250, 110], [0, 0, 1]] =
        [[250, 0, 140], [0, 250, 110], [0, 0, 1]]"
      by (simp add: spec_matmul_def spec_Kp_def)
    have s1: "small_integer_products (spec_Ks (1 / 2)) [[500, 0, 320], [0, 500, 240], [0, 0, 1]]"
      by (simp add: small_integer_products_def spec_Ks_def)
    have s2: "small_integer_products (spec_Kc 20 10) [[250, 0, 160], [0, 250, 120], [0, 0, 1]]"
      by (simp add: small_integer_products_def spec_Kc_def)
    have s3: "small_integer_products (spec_Kp 0 0) [[250, 0, 140], [0, 250, 110], [0, 0, 1]]"
      by (simp add: small_integer_products_def spec_Kp_def)
    have s1': "small_integer_products (spec_Ks scale_factor) [[500, 0, 320], [0, 500, 240], [0, 0, 1]]"
      unfolding e by (rule s1)
    have s2': "small_integer_products (spec_Kc w_offset h_offset)
        (spec_matmul (spec_Ks scale_factor) [[500, 0, 320], [0, 500, 240], [0, 0, 1]])"
      unfolding e m1 by (rule s2)
    have s3': "small_integer_products (spec_Kp p_left p_top)
        (spec_matmul (spec_Kc w_offset h_offset)
           (spec_matmul (spec_Ks scale_factor) [[500, 0, 320], [0, 500, 240], [0, 0, 1]]))"
      unfolding e m1 m2 by (rule s3)
    from a have c: "dot_exact_on_integers np_dot"
      and K: "K = floats [[500, 0, 320], [0, 500, 240], [0, 0, 1]]"
      by simp_all
    have M: "is_3x3 [[500, 0, 320], [0, 500, 240], [0, 0, 1 :: real]]" by (simp add: is_3x3_def)
    from exact [OF c K M s1' s2' s3']
    show "scale_crop np_dot rescale imsave img crop_size h_offset w_offset scale_factor (Some K)
          debug debug_root =
        Inr (ImageWithK out (floats [[250, 0, 140], [0, 250, 110], [0, 0, 1]]))"
      unfolding e m1 m2 m3 .
  qed
qed

text \<open>
  The scenario on a 22 by 42 image, with a stand-in for \<open>rescale\<close> that returns the
  11 by 21 image of the halved shape; the crop of size 1 at \<open>(10, 20)\<close> needs no padding.
\<close>

lemma scale_crop_image_example_half:
  "scale_crop_image (\<lambda>a s ax. Inr (Array2 21 (replicate 11 (replicate 21 0)))) (\<lambda>p x. None)
     (NDArray (Array2 42 (replicate 22 (replicate 42 (0 :: real))))) (Scalar 1) 10 20 (1 / 2)
     False None = Inr (NDArray (Array2 1 [[0]]), 0, 0, 0, 0)"
  by (simp add: scale_crop_image_def debug_save_def
      crop_img_def img_dim_def py_slice_def slice_bound_def slice_len_def
      smaller_than_crop_def shape_at_def)

theorem scale_crop_intrinsic_witness:
  "scale_crop_image (\<lambda>a s ax. Inr (Array2 21 (replicate 11 (replicate 21 0)))) (\<lambda>p x. None)
     (NDArray (Array2 42 (replicate 22 (replicate 42 (0 :: real))))) (Scalar 1) 10 20 (1 / 2)
     False None = Inr (NDArray (Array2 1 [[0]]), 0, 0, 0, 0) \<and>
   \<bar>10 :: int\<bar> < 2 ^ 53 \<and> \<bar>20 :: int\<bar> < 2 ^ 53 \<and> \<bar>0 :: int\<bar> < 2 ^ 53 \<and>
   dot_exact_on_integers dot_rounded \<and>
   scale_crop dot_rounded (\<lambda>a s ax. Inr (Array2 21 (replicate 11 (replicate 21 0)))) (\<lambda>p x. None)
     (NDArray (Array2 42 (replicate 22 (replicate 42 (0 :: real))))) (Scalar 1) 10 20 (1 / 2)
     (Some (floats [[500, 0, 320], [0, 500, 240], [0, 0, 1]])) False None =
     Inr (ImageWithK (NDArray (Array2 1 [[0]])) (floats [[250, 0, 140], [0, 250, 110], [0, 0, 1]]))"
proof -
  have b: "\<bar>10 :: int\<bar> < 2 ^ 53" "\<bar>20 :: int\<bar> < 2 ^ 53" "\<bar>0 :: int\<bar> < 2 ^ 53" by simp_all
  from scale_crop_intrinsic [OF scale_crop_image_example_half b(1) b(2) b(3) b(3),
      where np_dot = dot_rounded and K = "floats [[500, 0, 320], [0, 500, 240], [0, 0, 1]]",
      THEN conjunct2, THEN conjunct2] dot_rounded_exact
  have "scale_crop dot_rounded (\<lambda>a s ax. Inr (Array2 21 (replicate 11 (replicate 21 0)))) (\<lambda>p x. None)
     (NDArray (Array2 42 (replicate 22 (replicate 42 (0 :: real))))) (Scalar 1) 10 20 (1 / 2)
     (Some (floats [[500, 0, 320], [0, 500, 240], [0, 0, 1]])) False None =
     Inr (ImageWithK (NDArray (Array2 1 [[0]])) (floats [[250, 0, 140], [0, 250, 110], [0, 0, 1]]))"
    by simp
  with scale_crop_image_example_half b dot_rounded_exact show ?thesis by simp
qed

text \<open>
  The product is numpy's, on floats. For the scale factor \<open>1/3\<close>, which as a float is
  \<open>6004799503160661 / 2 ^ 54\<close>, and \<open>K = [[3,0,1],[0,3,1],[0,0,1]]\<close>, the focal entry of
  \<open>Ks \<cdot> K\<close> is \<open>1 - 2 ^ (-54)\<close> over the reals, half way between two floats, and is
  rounded to 1: whatever the order of the additions, the other two products of this
  entry being zero. The intrinsic returned has the focal entries 1, and the product over
  the reals has \<open>18014398509481983 / 18014398509481984\<close>.
\<close>

theorem scale_crop_intrinsic_rounded:
  "scale_crop dot_rounded (\<lambda>a s ax. Inr a) (\<lambda>p x. None) (NDArray (Array2 1 [[0 :: real]])) (Scalar 1)
     0 0 (6004799503160661 / 18014398509481984)
     (Some (floats [[3, 0, 1], [0, 3, 1], [0, 0, 1]])) False None =
     Inr (ImageWithK (NDArray (Array2 1 [[0]]))
       (floats [[1, 0, 6004799503160661 / 18014398509481984],
                [0, 1, 6004799503160661 / 18014398509481984],
                [0, 0, 1]])) \<and>
   spec_matmul (spec_Kp 0 0) (spec_matmul (spec_Kc 0 0)
     (spec_matmul (spec_Ks (6004799503160661 / 18014398509481984)) [[3, 0, 1], [0, 3, 1], [0, 0, 1]])) =
     [[18014398509481983 / 18014398509481984, 0, 6004799503160661 / 18014398509481984],
      [0, 18014398509481983 / 18014398509481984, 6004799503160661 / 18014398509481984],
      [0, 0, 1]]"
proof -
  have img: "scale_crop_image (\<lambda>a s ax. Inr a) (\<lambda>p x. None) (NDArray (Array2 1 [[0 :: real]])) (Scalar 1)
     0 0 (6004799503160661 / 18014398509481984) False None =
     Inr (NDArray (Array2 1 [[0]]), 0, 0, 0, 0)"
    by (simp add: scale_crop_image_def debug_save_def
      crop_img_def img_dim_def py_slice_def slice_bound_def slice_len_def
      smaller_than_crop_def shape_at_def)
  have z: "\<bar>0 :: int\<bar> < 2 ^ 53" by simp
  have one: "rnd64 1 = Finite 1" by (rule rnd64_Ints) simp_all
  have zero: "rnd64 0 = Finite 0" by (simp add: rnd64_def)
  have d1: "dot_rounded (floats (spec_Ks (6004799503160661 / 18014398509481984)))
        (floats [[3, 0, 1], [0, 3, 1], [0, 0, 1]]) =
      Inr (floats [[1, 0, 6004799503160661 / 18014398509481984],
                   [0, 1, 6004799503160661 / 18014398509481984], [0, 0, 1]])"
    by (simp add: dot_rounded_def floats_def spec_Ks_def one zero rnd64_third rnd64_tie_one)
  have d2: "dot_rounded (floats (spec_Kc 0 0))
        (floats [[1, 0, 6004799503160661 / 18014398509481984],
                 [0, 1, 6004799503160661 / 18014398509481984], [0, 0, 1]]) =
      Inr (floats [[1, 0, 6004799503160661 / 18014398509481984],
                   [0, 1, 6004799503160661 / 18014398509481984], [0, 0, 1]])"
    by (simp add: dot_rounded_def floats_def spec_Kc_def one zero rnd64_third)
  have d3: "dot_rounded (floats (spec_Kp 0 0))
        (floats [[1, 0, 6004799503160661 / 18014398509481984],
                 [0, 1, 6004799503160661 / 18014398509481984], [0, 0, 1]]) =
      Inr (floats [[1, 0, 6004799503160661 / 18014398509481984],
                   [0, 1, 6004799503160661 / 18014398509481984], [0, 0, 1]])"
    by (simp add: dot_rounded_def floats_def spec_Kp_def one zero rnd64_third)
  have run: "scale_crop dot_rounded (\<lambda>a s ax. Inr a) (\<lambda>p x. None) (NDArray (Array2 1 [[0 :: real]])) (Scalar 1)
     0 0 (6004799503160661 / 18014398509481984)
     (Some (floats [[3, 0, 1], [0, 3, 1], [0, 0, 1]])) False None =
     Inr (ImageWithK (NDArray (Array2 1 [[0]]))
       (floats [[1, 0, 6004799503160661 / 18014398509481984],
                [0, 1, 6004799503160661 / 18014398509481984],
                [0, 0, 1]]))"
    unfolding scale_crop_def img by (simp add: adjust_intrinsic_spec [OF z z z z] d1 d2 d3)
  have prod: "spec_matmul (spec_Kp 0 0) (spec_matmul (spec_Kc 0 0)
     (spec_matmul (spec_Ks (6004799503160661 / 18014398509481984)) [[3, 0, 1], [0, 3, 1], [0, 0, 1]])) =
     [[18014398509481983 / 18014398509481984, 0, 6004799503160661 / 18014398509481984],
      [0, 18014398509481983 / 18014398509481984, 6004799503160661 / 18014398509481984],
      [0, 0, 1]]"
    by (simp add: spec_matmul_def spec_Kp_def spec_Kc_def spec_Ks_def)
  from run prod show ?thesis by (rule conjI)
qed

section \<open>Random crop offsets\<close>

lemma randint_ok:
  "- (2 ^ 63) \<le> low \<Longrightarrow> high \<le> 2 ^ 63 \<Longrightarrow> low < high \<Longrightarrow> randint low high = Inr [low..high - 1]"
  by (simp add: randint_def)

lemma count_list_distinct: "distinct xs \<Longrightarrow> count_list xs x = (if x \<in> set xs then 1 else 0)"
  by (induction xs) auto

lemma count_list_replicate_eq: "count_list (replicate n y) x = (if x = y then n else 0)"
  by (induction n) auto

lemma count_list_concat_replicate:
  "count_list (concat (map (\<lambda>w. replicate n w) ws)) x = n * count_list ws x"
  by (induction ws) (auto simp add: count_list_replicate_eq)

lemma count_list_concat_const:
  "count_list (concat (map (\<lambda>w. hs) ws)) x = length ws * count_list hs x"
  by (induction ws) auto

lemma map_snd_pairs:
  "map snd (concat (map (\<lambda>w. map (\<lambda>h. (h, w)) hs) ws)) =
     concat (map (\<lambda>w. replicate (length hs) w) ws)"
  by (induction ws) (simp_all add: map_replicate_const comp_def)

lemma map_fst_pairs:
  "map fst (concat (map (\<lambda>w. map (\<lambda>h. (h, w)) hs) ws)) = concat (map (\<lambda>w. hs) ws)"
  by (induction ws) (simp_all add: comp_def)

lemma set_pairs:
  "set (concat (map (\<lambda>w. map (\<lambda>h. (h, w)) hs) ws)) = set hs \<times> set ws"
  by auto

lemma distinct_pairs:
  assumes "distinct hs" "distinct ws"
  shows "distinct (concat (map (\<lambda>w. map (\<lambda>h. (h, w)) hs) ws))"
  using assms(2)
proof (induction ws)
  case Nil
  show ?case by simp
next
  case (Cons w ws)
  have "distinct (map (\<lambda>h. (h, w)) hs)"
    using assms(1) by (simp add: distinct_map inj_on_def)
  with Cons show ?case by auto
qed

text \<open>
  C6. When \<open>height - crop_height - 1\<close> and \<open>width - crop_width - 1\<close> are at most
  \<open>2 ^ 63\<close>, \<open>get_random_crop_offsets\<close> does not raise. Its equally likely results are,
  each once, the pairs of an \<open>h_offset\<close> in \<open>[0, max(1, height - crop_height - 1))\<close> and a
  \<open>w_offset\<close> in \<open>[0, max(1, width - crop_width - 1))\<close>, so each offset is uniform on its
  range: every \<open>w_offset\<close> of the range occurs in as many results as there are
  \<open>h_offset\<close>s, and the other way round. When the image exceeds the crop by more than one
  pixel on both axes the window lies inside the image; on an axis where
  \<open>size - crop - 1 \<le> 0\<close> the offset is 0. When one of the two numbers is above \<open>2 ^ 63\<close>,
  \<open>get_random_crop_offsets\<close> raises the \<open>ValueError\<close> of \<open>np.random.randint\<close>.
\<close>

theorem get_random_crop_offsets_range:
  assumes "crop_hw crop_size = (crop_height, crop_width)"
  shows "(height - crop_height - 1 \<le> 2 ^ 63 \<and> width - crop_width - 1 \<le> 2 ^ 63 \<longrightarrow>
     (\<exists>offsets. get_random_crop_offsets crop_size height width = Inr offsets \<and>
     distinct offsets \<and>
     set offsets = {0..<max 1 (height - crop_height - 1)} \<times> {0..<max 1 (width - crop_width - 1)} \<and>
     length offsets = nat (max 1 (height - crop_height - 1)) * nat (max 1 (width - crop_width - 1)) \<and>
     (\<forall>w. count_list (map snd offsets) w =
        (if 0 \<le> w \<and> w < max 1 (width - crop_width - 1)
         then nat (max 1 (height - crop_height - 1)) else 0)) \<and>
     (\<forall>h. count_list (map fst offsets) h =
        (if 0 \<le> h \<and> h < max 1 (height - crop_height - 1)
         then nat (max 1 (width - crop_width - 1)) else 0)) \<and>
     (\<forall>(h_offset, w_offset) \<in> set offsets.
        (crop_height + 1 < height \<and> crop_width + 1 < width \<longrightarrow>
           h_offset + crop_height \<le> height \<and> w_offset + crop_width \<le> width) \<and>
        (width - crop_width - 1 \<le> 0 \<longrightarrow> w_offset = 0) \<and>
        (height - crop_height - 1 \<le> 0 \<longrightarrow> h_offset = 0)))) \<and>
   (2 ^ 63 < height - crop_height - 1 \<or> 2 ^ 63 < width - crop_width - 1 \<longrightarrow>
      get_random_crop_offsets crop_size height width =
        Inl (ValueError ''high is out of bounds for int64''))"
proof (intro conjI impI)
  assume bounds: "height - crop_height - 1 \<le> 2 ^ 63 \<and> width - crop_width - 1 \<le> 2 ^ 63"
  define H where "H = max 1 (height - crop_height - 1)"
  define W where "W = max 1 (width - crop_width - 1)"
  define hs where "hs = [0..H - 1]"
  define ws where "ws = [0..W - 1]"
  define offsets where "offsets = concat (map (\<lambda>w. map (\<lambda>h. (h, w)) hs) ws)"
  have pos: "0 < H" "0 < W" by (simp_all add: H_def W_def)
  have le: "H \<le> 2 ^ 63" "W \<le> 2 ^ 63" using bounds by (simp_all add: H_def W_def)
  have run: "get_random_crop_offsets crop_size height width = Inr offsets"
    using pos le
    by (simp add: get_random_crop_offsets_def assms randint_ok H_def [symmetric] W_def [symmetric]
        offsets_def hs_def ws_def)
  have sets: "set hs = {0..<H}" "set ws = {0..<W}" by (auto simp add: hs_def ws_def)
  have dist: "distinct hs" "distinct ws" by (simp_all add: hs_def ws_def)
  have len: "length hs = nat H" "length ws = nat W" using pos by (simp_all add: hs_def ws_def)
  have 1: "distinct offsets" unfolding offsets_def using dist by (rule distinct_pairs)
  have 2: "set offsets = {0..<H} \<times> {0..<W}" unfolding offsets_def set_pairs sets ..
  have 3: "length offsets = nat H * nat W"
    by (simp add: offsets_def length_concat comp_def sum_list_triv len map_replicate_const
        sum_list_replicate)
  have 4: "count_list (map snd offsets) w = (if 0 \<le> w \<and> w < W then nat H else 0)" for w
    unfolding offsets_def map_snd_pairs count_list_concat_replicate
    by (simp add: count_list_distinct dist sets len)
  have 5: "count_list (map fst offsets) h = (if 0 \<le> h \<and> h < H then nat W else 0)" for h
    unfolding offsets_def map_fst_pairs count_list_concat_const
    by (simp add: count_list_distinct dist sets len)
  have 6: "\<forall>(h_offset, w_offset) \<in> set offsets.
        (crop_height + 1 < height \<and> crop_width + 1 < width \<longrightarrow>
           h_offset + crop_height \<le> height \<and> w_offset + crop_width \<le> width) \<and>
        (width - crop_width - 1 \<le> 0 \<longrightarrow> w_offset = 0) \<and>
        (height - crop_height - 1 \<le> 0 \<longrightarrow> h_offset = 0)"
    unfolding 2 by (auto simp add: H_def W_def)
  from run 1 2 3 4 5 6
  show "\<exists>offsets. get_random_crop_offsets crop_size height width = Inr offsets \<and>
     distinct offsets \<and>
     set offsets = {0..<max 1 (height - crop_height - 1)} \<times> {0..<max 1 (width - crop_width - 1)} \<and>
     length offsets = nat (max 1 (height - crop_height - 1)) * nat (max 1 (width - crop_width - 1)) \<and>
     (\<forall>w. count_list (map snd offsets) w =
        (if 0 \<le> w \<and> w < max 1 (width - crop_width - 1)
         then nat (max 1 (height - crop_height - 1)) else 0)) \<and>
     (\<forall>h. count_list (map fst offsets) h =
        (if 0 \<le> h \<and> h < max 1 (height - crop_height - 1)
         then nat (max 1 (width - crop_width - 1)) else 0)) \<and>
     (\<forall>(h_offset, w_offset) \<in> set offsets.
        (crop_height + 1 < height \<and> crop_width + 1 < width \<longrightarrow>
           h_offset + crop_height \<le> height \<and> w_offset + crop_width \<le> width) \<and>
        (width - crop_width - 1 \<le> 0 \<longrightarrow> w_offset = 0) \<and>
        (height - crop_height - 1 \<le> 0 \<longrightarrow> h_offset = 0))"
    unfolding H_def W_def by blast
next
  assume big: "2 ^ 63 < height - crop_height - 1 \<or> 2 ^ 63 < width - crop_width - 1"
  show "get_random_crop_offsets crop_size height width =
        Inl (ValueError ''high is out of bounds for int64'')"
  proof (cases "2 ^ 63 < width - crop_width - 1")
    case True
    then show ?thesis by (simp add: get_random_crop_offsets_def assms randint_def)
  next
    case False
    with big have h: "2 ^ 63 < height - crop_height - 1" by simp
    from False have "max 1 (width - crop_width - 1) \<le> 2 ^ 63" by simp
    then have "randint 0 (max 1 (width - crop_width - 1)) =
        Inr [0..max 1 (width - crop_width - 1) - 1]"
      by (intro randint_ok) simp_all
    with h show ?thesis by (simp add: get_random_crop_offsets_def assms randint_def)
  qed
qed

theorem get_random_crop_offsets_range_witness:
  "crop_hw (Scalar 2) = (2, 2) \<and>
   (5 :: int) - 2 - 1 \<le> 2 ^ 63 \<and> (6 :: int) - 2 - 1 \<le> 2 ^ 63 \<and>
   get_random_crop_offsets (Scalar 2) 5 6 = Inr [(0, 0), (1, 0), (0, 1), (1, 1), (0, 2), (1, 2)] \<and>
   (2 :: int) + 1 < 5 \<and> (2 :: int) + 1 < 6 \<and> (1 :: int) + 2 \<le> 5 \<and> (2 :: int) + 2 \<le> 6 \<and>
   count_list (map snd [(0, 0), (1, 0), (0, 1), (1, 1), (0, 2), (1, 2 :: int)]) (2 :: int) = 2 \<and>
   get_random_crop_offsets (Scalar 2) 3 2 = Inr [(0, 0)] \<and>
   (3 :: int) - 2 - 1 \<le> 0 \<and> (2 :: int) - 2 - 1 \<le> 0"
proof -
  have hw: "crop_hw (Scalar 2) = (2, 2)" by simp
  have b: "(5 :: int) - 2 - 1 \<le> 2 ^ 63 \<and> (6 :: int) - 2 - 1 \<le> 2 ^ 63" by simp
  have b2: "(3 :: int) - 2 - 1 \<le> 2 ^ 63 \<and> (2 :: int) - 2 - 1 \<le> 2 ^ 63" by simp
  have e1: "get_random_crop_offsets (Scalar 2) 5 6 =
      Inr [(0, 0), (1, 0), (0, 1), (1, 1), (0, 2), (1, 2)]"
    by (simp add: get_random_crop_offsets_def randint_def upto.simps)
  have e2: "get_random_crop_offsets (Scalar 2) 3 2 = Inr [(0, 0)]"
    by (simp add: get_random_crop_offsets_def randint_def upto.simps)
  from get_random_crop_offsets_range [OF hw, of 5 6, THEN conjunct1, rule_format, OF b] e1
  have "count_list (map snd [(0, 0), (1, 0), (0, 1), (1, 1), (0, 2), (1, 2 :: int)]) (2 :: int) = 2"
    by auto
  moreover from get_random_crop_offsets_range [OF hw, of 3 2, THEN conjunct1, rule_format, OF b2] e2
  have "set [(0 :: int, 0 :: int)] = {0..<1} \<times> {0..<1}" by auto
  ultimately show ?thesis using hw b e1 e2 by simp
qed

text \<open>
  \<open>np.random.randint\<close> draws an \<open>int64\<close>: for a crop of 2 in an image of height 5 and
  width \<open>2 ^ 63 + 4\<close> the bound \<open>max(1, width - crop_width - 1)\<close> is \<open>2 ^ 63 + 1\<close>, and
  the draw raises.
\<close>

theorem get_random_crop_offsets_out_of_bounds:
  "get_random_crop_offsets (Scalar 2) 5 9223372036854775812 =
     Inl (ValueError ''high is out of bounds for int64'') \<and>
   max 1 (9223372036854775812 - 2 - 1) = (9223372036854775809 :: int) \<and>
   (2 :: int) ^ 63 + 4 = 9223372036854775812"
  by (simp add: get_random_crop_offsets_def randint_def)

section \<open>What \<open>scale_crop\<close> writes\<close>

lemma keeps_bind:
  assumes "keeps s0 m Q" and "\<And>x. Q x \<Longrightarrow> keeps s0 (f x) R"
  shows "keeps s0 (bindS m f) R"
  unfolding keeps_def
proof (intro allI impI)
  fix s res s'
  assume fr: "frame s0 s" and run: "bindS m f s = (res, s')"
  obtain r1 s1 where m: "m s = (r1, s1)" by (cases "m s")
  from assms(1) fr m have f1: "frame s0 s1" and q: "\<forall>x. r1 = Inr x \<longrightarrow> Q x"
    unfolding keeps_def by blast+
  show "frame s0 s' \<and> (\<forall>x. res = Inr x \<longrightarrow> R x)"
  proof (cases r1)
    case (Inl e)
    with run m have "res = Inl e" "s' = s1" by (simp_all add: bindS_def)
    with f1 show ?thesis by simp
  next
    case (Inr x)
    with run m have "f x s1 = (res, s')" by (simp add: bindS_def)
    moreover from q Inr have "Q x" by simp
    ultimately show ?thesis using assms(2) f1 unfolding keeps_def by blast
  qed
qed

lemma keeps_weaken: "keeps s0 m Q \<Longrightarrow> (\<And>x. Q x \<Longrightarrow> Q' x) \<Longrightarrow> keeps s0 m Q'"
  unfolding keeps_def by blast

lemma keeps_return: "Q x \<Longrightarrow> keeps s0 (returnS x) Q"
  by (simp add: keeps_def returnS_def)

lemma keeps_raise: "keeps s0 (raiseS e) Q"
  by (simp add: keeps_def raiseS_def)

lemma keeps_lift: "keeps s0 (liftS v) (\<lambda>x. True)"
  by (simp add: keeps_def liftS_def)

lemma keeps_alloc: "keeps s0 (alloc b) (\<lambda>p. next_free s0 \<le> p)"
  by (auto simp add: keeps_def alloc_def frame_def wf_store_def)

lemma keeps_read_buf: "keeps s0 (read_buf p) (\<lambda>x. True)"
  by (auto simp add: keeps_def read_buf_def split: option.splits)

lemma keeps_read_array: "keeps s0 (read_array r) (\<lambda>x. True)"
proof (induction r)
  case (Buf p)
  show ?case unfolding read_array.simps
    by (rule keeps_bind [OF keeps_read_buf])
       (auto split: buffer.splits intro: keeps_return keeps_raise)
next
  case (Slice r with_colon a b c d)
  show ?case unfolding read_array.simps
    by (rule keeps_bind [OF Slice.IH]) (rule keeps_lift)
qed

lemma keeps_read_matrix: "keeps s0 (read_matrix p) (\<lambda>x. True)"
  unfolding read_matrix_def
  by (rule keeps_bind [OF keeps_read_buf])
     (auto split: buffer.splits intro: keeps_return keeps_raise)

lemma keeps_write_entry:
  assumes "next_free s0 \<le> p"
  shows "keeps s0 (write_entry p i j v) (\<lambda>x. True)"
  unfolding keeps_def
proof (intro allI impI)
  fix s res s'
  assume fr: "frame s0 s" and run: "write_entry p i j v s = (res, s')"
  show "frame s0 s' \<and> (\<forall>x. res = Inr x \<longrightarrow> True)"
  proof (cases "heap s p")
    case None
    with run have "s' = s" by (simp add: write_entry_def)
    with fr show ?thesis by simp
  next
    case (Some b)
    with fr have "p < next_free s" unfolding frame_def wf_store_def
      by (metis not_le option.distinct(1))
    with run Some fr assms show ?thesis
      by (cases b) (auto simp add: write_entry_def frame_def wf_store_def)
  qed
qed

lemma keeps_library:
  assumes "writes_only r m" and "next_free s0 \<le> base r"
  shows "keeps s0 m (\<lambda>x. True)"
  unfolding keeps_def
proof (intro allI impI)
  fix s res s'
  assume fr: "frame s0 s" and run: "m s = (res, s')"
  from fr have wf: "wf_store s" by (simp add: frame_def)
  from assms(1) wf run have W: "wf_store s'" "next_free s \<le> next_free s'"
    "\<forall>p < next_free s. p \<noteq> base r \<longrightarrow> heap s' p = heap s p"
    unfolding writes_only_def by blast+
  have "heap s' p = heap s0 p" if "p < next_free s0" for p
  proof -
    from that assms(2) have "p \<noteq> base r" by simp
    moreover from that fr have "p < next_free s" by (simp add: frame_def)
    ultimately have "heap s' p = heap s p" using W(3) by simp
    with that fr show ?thesis by (simp add: frame_def)
  qed
  with W fr show "frame s0 s' \<and> (\<forall>x. res = Inr x \<longrightarrow> True)"
    by (simp add: frame_def)
qed

lemma keeps_np_copy: "keeps s0 (np_copy r) (\<lambda>c. next_free s0 \<le> base c)"
  unfolding np_copy_def
  by (rule keeps_bind [OF keeps_read_array], rule keeps_bind [OF keeps_alloc])
     (simp add: keeps_return)

lemma keeps_matrix_copy: "keeps s0 (matrix_copy p) (\<lambda>c. next_free s0 \<le> c)"
  unfolding matrix_copy_def
  by (rule keeps_bind [OF keeps_read_matrix]) (rule keeps_alloc)

lemma keeps_new_eye: "keeps s0 (new_eye n) (\<lambda>c. next_free s0 \<le> c)"
  unfolding new_eye_def by (rule keeps_alloc)

lemma keeps_dot_st: "keeps s0 (dot_st np_dot pa pb) (\<lambda>c. next_free s0 \<le> c)"
  unfolding dot_st_def
  by (rule keeps_bind [OF keeps_read_matrix], rule keeps_bind [OF keeps_read_matrix],
      rule keeps_bind [OF keeps_lift], rule keeps_alloc)

lemma keeps_debug_save_st:
  assumes "\<forall>path r. writes_only r (imsave path r)"
  shows "keeps s0 (debug_save_st imsave debug debug_root name img) (\<lambda>x. True)"
proof (cases "debug")
  case False
  then show ?thesis by (simp add: debug_save_st_def keeps_return)
next
  case True
  show ?thesis
  proof (cases img)
    case None
    with True show ?thesis by (simp add: debug_save_st_def keeps_raise)
  next
    case (Some r)
    have "keeps s0 (imsave path (Buf p)) (\<lambda>x. True)" if "next_free s0 \<le> p" for path p
      using assms that by (intro keeps_library [where r = "Buf p"]) simp_all
    then show ?thesis unfolding debug_save_st_def using True Some
      by (auto intro!: keeps_bind [OF keeps_read_array] keeps_bind [OF keeps_alloc])
  qed
qed

lemma keeps_crop_img_st: "keeps s0 (crop_img_st img crop_size h_offset w_offset) (\<lambda>x. True)"
  unfolding crop_img_st_def
  by (rule keeps_bind [OF keeps_read_array])
     (auto split: prod.splits intro: keeps_return)

lemma keeps_smaller_than_crop_st:
  "keeps s0 (smaller_than_crop_st img crop_height crop_width) (\<lambda>x. True)"
  unfolding smaller_than_crop_st_def
  by (cases img) (auto intro: keeps_raise keeps_bind [OF keeps_read_array] keeps_lift)

lemma keeps_pad_width_or_height_st:
  "keeps s0 (pad_width_or_height_st data output_width output_height pad_value) (\<lambda>x. True)"
proof (cases data)
  case None
  then show ?thesis by (simp add: pad_width_or_height_st_def keeps_raise)
next
  case (Some d)
  have "keeps s0 (case r of
               PaddedOffsets (NDArray padded) p_top p_bottom p_left p_right \<Rightarrow>
                 bindS (alloc (ImageBuf padded)) (\<lambda>p.
                   returnS (Some (Buf p), p_top, p_bottom, p_left, p_right))
             | _ \<Rightarrow> raiseS (ValueError ''cannot unpack'')) (\<lambda>x. True)" for r :: "'a pad_result"
    by (auto split: pad_result.splits pyobj.splits
        intro!: keeps_raise keeps_bind [OF keeps_alloc] keeps_return)
  then show ?thesis unfolding pad_width_or_height_st_def Some
    by (auto intro!: keeps_bind [OF keeps_read_array] keeps_bind [OF keeps_lift])
qed

lemma keeps_scale_crop_image_st:
  assumes lib: "library_frame rescale imsave"
  shows "keeps s0 (scale_crop_image_st rescale imsave img crop_size h_offset w_offset
                     scale_factor debug debug_root) (\<lambda>x. True)"
proof (cases img)
  case None
  then show ?thesis by (simp add: scale_crop_image_st_def keeps_raise)
next
  case (Some r)
  obtain crop_height crop_width where hw: "crop_hw crop_size = (crop_height, crop_width)"
    by (cases "crop_hw crop_size")
  from lib have save: "\<forall>path r. writes_only r (imsave path r)"
    and resc: "\<And>c s ax. writes_only c (rescale c s ax)"
    by (simp_all add: library_frame_def)
  note dbg = keeps_debug_save_st [OF save]
  have scaling: "keeps s0 (bindS (np_copy r) (\<lambda>c. rescale c scale_factor ax)) (\<lambda>x. True)" for ax
    by (rule keeps_bind [OF keeps_np_copy]) (rule keeps_library [OF resc])
  have scale_step: "keeps s0
      (if ndim a = 3 then bindS (np_copy r) (\<lambda>c. rescale c scale_factor (Some 2))
       else if ndim a = 2 then bindS (np_copy r) (\<lambda>c. rescale c scale_factor None)
       else raiseS (RuntimeError ''invalid input image dimension num'')) (\<lambda>x. True)" for a :: "'a ndarray"
    by (simp add: scaling keeps_raise)
  have pad_step: "keeps s0
      (if small then pad_width_or_height_st cropped crop_width crop_height 0
       else returnS (cropped, 0, 0, 0, 0)) (\<lambda>x. True)" for small cropped
    by (simp add: keeps_pad_width_or_height_st keeps_return)
  show ?thesis
    unfolding scale_crop_image_st_def Some option.case hw prod.case
    apply (rule keeps_bind [OF keeps_read_array])
    apply (rule keeps_bind [OF dbg])
    apply (rule keeps_bind [OF scale_step])
    apply (rule keeps_bind [OF dbg])
    apply (rule keeps_bind [OF keeps_crop_img_st])
    apply (rule keeps_bind [OF dbg])
    apply (rule keeps_bind [OF keeps_smaller_than_crop_st])
    apply (rule keeps_bind [OF pad_step])
    apply (rule keeps_bind [OF dbg])
    apply (rule keeps_return)
    apply simp
    done
qed

lemma keeps_adjust_intrinsic_st:
  "keeps s0 (adjust_intrinsic_st np_dot k scale_factor h_offset w_offset p_left p_top) (\<lambda>x. True)"
  unfolding adjust_intrinsic_st_def
  by (intro keeps_bind [OF keeps_new_eye] keeps_bind [OF keeps_write_entry]
      keeps_bind [OF keeps_lift]
      keeps_bind [OF keeps_matrix_copy] keeps_bind [OF keeps_dot_st]
      keeps_weaken [OF keeps_dot_st]) simp_all

lemma keeps_scale_crop_st:
  assumes lib: "library_frame rescale imsave"
  shows "keeps s0 (scale_crop_st np_dot rescale imsave img crop_size h_offset w_offset scale_factor K
                     debug debug_root) (\<lambda>x. True)"
proof -
  have tail: "keeps s0
      (case K of
         Some k \<Rightarrow>
           bindS (adjust_intrinsic_st np_dot k scale_factor h_offset w_offset p_left p_top)
             (\<lambda>K_aug. returnS (img', Some K_aug))
       | None \<Rightarrow> returnS (img', None))
      (\<lambda>x. True)" for p_left p_top and img' :: "aref option"
  proof (cases K)
    case None
    show ?thesis unfolding None option.case by (rule keeps_return) simp
  next
    case (Some k)
    show ?thesis unfolding Some option.case
      by (rule keeps_bind [OF keeps_adjust_intrinsic_st]) (rule keeps_return, simp)
  qed
  show ?thesis
    unfolding scale_crop_st_def
    apply (rule keeps_bind [OF keeps_scale_crop_image_st [OF lib]])
    apply (simp only: split_paired_all prod.case)
    apply (rule tail)
    done
qed

lemma frame_refl: "wf_store s \<Longrightarrow> frame s s"
  by (simp add: frame_def)

lemma read_array_heap:
  assumes "heap s' (base r) = heap s (base r)"
  shows "fst (read_array r s') = fst (read_array r s)"
  using assms
proof (induction r)
  case (Buf p)
  then show ?case
    by (simp add: bindS_def read_buf_def returnS_def raiseS_def split: option.splits buffer.splits)
next
  case (Slice r with_colon a b c d)
  then have "fst (read_array r s') = fst (read_array r s)" by simp
  then show ?case
    by (cases "read_array r s'"; cases "read_array r s")
       (auto simp add: bindS_def liftS_def split: sum.splits)
qed

text \<open>
  C10. Whatever \<open>rescale\<close> and \<open>imsave\<close> do to the arrays they are handed, a call of
  \<open>scale_crop\<close> leaves every buffer that existed before the call as it was; so the
  input image and the input intrinsic read the same after the call as before, whether
  the call returns or raises.
\<close>

theorem scale_crop_st_frame:
  assumes "wf_store s" and "library_frame rescale imsave"
    and "scale_crop_st np_dot rescale imsave img crop_size h_offset w_offset scale_factor K
           debug debug_root s = (res, s')"
  shows "(\<forall>p < next_free s. heap s' p = heap s p) \<and>
     (\<forall>r. img = Some r \<and> base r < next_free s \<longrightarrow>
        fst (read_array r s') = fst (read_array r s)) \<and>
     (\<forall>k. K = Some k \<and> k < next_free s \<longrightarrow> fst (read_matrix k s') = fst (read_matrix k s))"
proof -
  from keeps_scale_crop_st [OF assms(2)] frame_refl [OF assms(1)] assms(3)
  have "frame s s'" unfolding keeps_def by blast
  then have same: "\<forall>p < next_free s. heap s' p = heap s p" by (simp add: frame_def)
  moreover have "fst (read_array r s') = fst (read_array r s)" if "base r < next_free s" for r
    using same that by (intro read_array_heap) simp
  moreover have "fst (read_matrix k s') = fst (read_matrix k s)" if "k < next_free s" for k
    using same that
    by (simp add: read_matrix_def bindS_def read_buf_def returnS_def raiseS_def
        split: option.splits buffer.splits)
  ultimately show ?thesis by blast
qed

lemma clobbering_rescale_frame: "writes_only r (clobbering_rescale r scale_factor channel_axis)"
proof -
  have "heap s (base r) \<noteq> None \<Longrightarrow> wf_store s \<Longrightarrow> base r < next_free s" for s :: "'a store"
    unfolding wf_store_def by (meson not_le)
  then show ?thesis
    unfolding writes_only_def clobbering_rescale_def
    by (auto simp add: wf_store_def split: option.splits)
qed

lemma example_library_frame: "library_frame clobbering_rescale imsave_nothing"
  by (simp add: library_frame_def clobbering_rescale_frame)
     (simp add: writes_only_def imsave_nothing_def returnS_def)

lemma example_wf_store: "wf_store example_store"
  by (simp add: wf_store_def example_store_def)

lemma example_run:
  "fst (scale_crop_st dot_rounded clobbering_rescale imsave_nothing (Some (Buf 0)) (Scalar 1) 0 0 1 (Some 1)
          False None example_store) = Inr (Some (Slice (Buf 2) False 0 1 0 1), Some 9) \<and>
   heap (snd (scale_crop_st dot_rounded clobbering_rescale imsave_nothing (Some (Buf 0)) (Scalar 1) 0 0 1
          (Some 1) False None example_store)) 2 = Some (ImageBuf (Array2 1 [[0]]))"
  by (simp add: scale_crop_st_def scale_crop_image_st_def adjust_intrinsic_st_def
      example_store_def bindS_def returnS_def raiseS_def liftS_def
      read_buf_def debug_save_st_def np_copy_def alloc_def clobbering_rescale_def
      crop_img_st_def smaller_than_crop_st_def smaller_than_crop_def shape_at_def
      index2.simps py_slice_def slice_bound_def slice_len_def
      new_eye_def write_entry_def matrix_copy_def read_matrix_def dot_st_def dot_rounded_def
      eye3 set_entry_def floats_def float_of_int_def rnd64_Ints)

theorem scale_crop_st_frame_witness:
  "wf_store example_store \<and> library_frame clobbering_rescale imsave_nothing \<and>
   fst (scale_crop_st dot_rounded clobbering_rescale imsave_nothing (Some (Buf 0)) (Scalar 1) 0 0 1 (Some 1)
          False None example_store) = Inr (Some (Slice (Buf 2) False 0 1 0 1), Some 9) \<and>
   heap (snd (scale_crop_st dot_rounded clobbering_rescale imsave_nothing (Some (Buf 0)) (Scalar 1) 0 0 1
          (Some 1) False None example_store)) 2 = Some (ImageBuf (Array2 1 [[0]])) \<and>
   heap (snd (scale_crop_st dot_rounded clobbering_rescale imsave_nothing (Some (Buf 0)) (Scalar 1) 0 0 1
          (Some 1) False None example_store)) 0 = Some (ImageBuf (Array2 2 [[1, 2], [3, 4]])) \<and>
   heap (snd (scale_crop_st dot_rounded clobbering_rescale imsave_nothing (Some (Buf 0)) (Scalar 1) 0 0 1
          (Some 1) False None example_store)) 1 =
     Some (MatrixBuf (floats [[500, 0, 320], [0, 500, 240], [0, 0, 1]]))"
proof -
  have run: "scale_crop_st dot_rounded clobbering_rescale imsave_nothing (Some (Buf 0)) (Scalar 1) 0 0 1
      (Some 1) False None example_store =
    (fst (scale_crop_st dot_rounded clobbering_rescale imsave_nothing (Some (Buf 0)) (Scalar 1) 0 0 1
      (Some 1) False None example_store),
     snd (scale_crop_st dot_rounded clobbering_rescale imsave_nothing (Some (Buf 0)) (Scalar 1) 0 0 1
      (Some 1) False None example_store))"
    by simp
  from scale_crop_st_frame [OF example_wf_store example_library_frame run]
  have "\<forall>p < next_free example_store.
      heap (snd (scale_crop_st dot_rounded clobbering_rescale imsave_nothing (Some (Buf 0)) (Scalar 1) 0 0 1
          (Some 1) False None example_store)) p = heap example_store p"
    by blast
  then have "heap (snd (scale_crop_st dot_rounded clobbering_rescale imsave_nothing (Some (Buf 0)) (Scalar 1)
          0 0 1 (Some 1) False None example_store)) 0 = heap example_store 0"
    and "heap (snd (scale_crop_st dot_rounded clobbering_rescale imsave_nothing (Some (Buf 0)) (Scalar 1)
          0 0 1 (Some 1) False None example_store)) 1 = heap example_store 1"
    by (simp_all add: example_store_def)
  then show ?thesis
    using example_wf_store example_library_frame example_run
    by (simp add: example_store_def)
qed

section \<open>The store and the functional model\<close>

lemma allocated_below:
  assumes "wf_store s" and "heap s p = Some b"
  shows "p < next_free s"
  using assms unfolding wf_store_def by (metis not_le option.distinct(1))

lemma read_array_state: "snd (read_array r s) = s"
proof (induction r)
  case (Buf p)
  show ?case
    by (simp add: bindS_def read_buf_def returnS_def raiseS_def split: option.splits buffer.splits)
next
  case (Slice r with_colon a b c d)
  then show ?case
    by (cases "read_array r s") (auto simp add: bindS_def liftS_def split: sum.splits)
qed

lemma read_array_eq: "read_array r s = (fst (read_array r s), s)"
  using read_array_state [of r s] by (cases "read_array r s") simp

lemma read_array_allocated:
  assumes "fst (read_array r s) = Inr a"
  shows "\<exists>b. heap s (base r) = Some b"
  using assms
proof (induction r arbitrary: a)
  case (Buf p)
  then show ?case
    by (auto simp add: bindS_def read_buf_def returnS_def raiseS_def split: option.splits)
next
  case (Slice r with_colon x y c d)
  from Slice.prems obtain arr where "fst (read_array r s) = Inr arr"
    by (cases "read_array r s") (auto simp add: bindS_def liftS_def split: sum.splits)
  with Slice.IH show ?case by simp
qed

lemma read_array_frame:
  assumes "wf_store s" and "fst (read_array r s) = Inr a"
    and "\<forall>p < next_free s. heap s' p = heap s p"
  shows "fst (read_array r s') = Inr a"
proof -
  from read_array_allocated [OF assms(2)] obtain b where "heap s (base r) = Some b" by blast
  with assms(1) have "base r < next_free s" by (rule allocated_below)
  with assms(3) have "heap s' (base r) = heap s (base r)" by simp
  from read_array_heap [OF this] assms(2) show ?thesis by simp
qed

text \<open>The intrinsic on the store is the intrinsic of the functional model.\<close>

lemma adjust_intrinsic_st_result:
  assumes wf: "wf_store s" and k: "heap s k = Some (MatrixBuf m)"
    and pure: "adjust_intrinsic np_dot m scale_factor h_offset w_offset p_left p_top = Inr K_aug"
  shows "\<exists>p s'. adjust_intrinsic_st np_dot k scale_factor h_offset w_offset p_left p_top s = (Inr p, s') \<and>
     heap s' p = Some (MatrixBuf K_aug) \<and> wf_store s' \<and>
     (\<forall>q < next_free s. heap s' q = heap s q)"
proof -
  from wf k have lt: "k < next_free s" by (rule allocated_below)
  from pure obtain fw fh fl ft m1 m2 where
    c: "float_of_int w_offset = Inr fw" "float_of_int h_offset = Inr fh"
      "float_of_int p_left = Inr fl" "float_of_int p_top = Inr ft"
    and d: "np_dot (set_entry (set_entry (eye 3) 0 0 (Finite scale_factor)) 1 1
                      (Finite scale_factor)) m = Inr m1"
      "np_dot (set_entry (set_entry (eye 3) 0 2 (fmul (Finite (- 1)) fw)) 1 2
                 (fmul (Finite (- 1)) fh)) m1 = Inr m2"
      "np_dot (set_entry (set_entry (eye 3) 0 2 fl) 1 2 ft) m2 = Inr K_aug"
    unfolding adjust_intrinsic_def Let_def
    by (auto simp add: bindR_Inr_iff)
  have neq: "k \<noteq> next_free s" "k \<noteq> Suc (next_free s)" "k \<noteq> Suc (Suc (next_free s))"
    using lt by simp_all
  note d' = d [simplified]
  show ?thesis
    using neq wf
    unfolding adjust_intrinsic_st_def new_eye_def matrix_copy_def dot_st_def read_matrix_def
    by (simp add: bindS_def alloc_def write_entry_def read_buf_def returnS_def liftS_def k c d'
        wf_store_def)
qed

lemma bindS_returnS: "bindS (returnS x) f = f x"
  by (simp add: fun_eq_iff bindS_def returnS_def)

lemma bindS_eq: "m s = (Inr x, s') \<Longrightarrow> bindS m f s = f x s'"
  by (simp add: bindS_def)

lemma bindS_liftS_Inr: "bindS (liftS (Inr x)) f = f x"
  by (simp add: fun_eq_iff bindS_def liftS_def)

lemma crop_img_index:
  assumes "crop_img (NDArray scaled) crop_size h_offset w_offset = Inr (NDArray c)"
    and "crop_hw crop_size = (crop_height, crop_width)"
  shows "(ndim scaled = 3 \<or> ndim scaled = 2) \<and>
     (if ndim scaled = 3
      then index3 scaled h_offset (h_offset + crop_height) w_offset (w_offset + crop_width)
      else index2 scaled h_offset (h_offset + crop_height) w_offset (w_offset + crop_width)) = Inr c"
  using assms
  by (auto simp add: crop_img_def img_dim_def bindR_Inr_iff split: if_splits)

lemma scale_crop_image_st_result:
  assumes wf: "wf_store s" and img: "fst (read_array r s) = Inr a"
    and pure: "scale_crop_image f imsave0 (NDArray a) crop_size h_offset w_offset scale_factor
                 False debug_root = Inr (NDArray out, p_top, p_bottom, p_left, p_right)"
  shows "\<exists>ro s'. scale_crop_image_st (lift_rescale f) imsave (Some r) crop_size h_offset w_offset
                    scale_factor False debug_root s =
                  (Inr (Some ro, p_top, p_bottom, p_left, p_right), s') \<and>
     fst (read_array ro s') = Inr out \<and> wf_store s' \<and>
     (\<forall>q < next_free s. heap s' q = heap s q)"
proof -
  obtain crop_height crop_width where hw: "crop_hw crop_size = (crop_height, crop_width)"
    by (cases "crop_hw crop_size")
  from scale_crop_image_InrD [OF pure hw] obtain scaled cropped small where S:
    "ndim a = 2 \<or> ndim a = 3"
    "f a scale_factor (if ndim a = 3 then Some 2 else None) = Inr scaled"
    "crop_img (NDArray scaled) crop_size h_offset w_offset = Inr cropped"
    "smaller_than_crop cropped crop_height crop_width = Inr small"
    "if small then
        pad_width_or_height cropped crop_width crop_height 0 True =
          Inr (PaddedOffsets (NDArray out) p_top p_bottom p_left p_right)
      else NDArray out = cropped \<and> p_top = 0 \<and> p_bottom = 0 \<and> p_left = 0 \<and> p_right = 0"
    by auto
  from S(4) have "cropped \<noteq> PyNone" by (auto simp add: smaller_than_crop_def shape_at_def)
  with crop_img_ndarray [OF S(3) hw] obtain c where c: "cropped = NDArray c" by auto
  note ix = crop_img_index [OF S(3) [unfolded c] hw]
  have R: "read_array r s = (Inr a, s)" using read_array_eq [of r s] img by simp
  define n where "n = next_free s"
  define s2 where "s2 = s\<lparr>heap := (heap s)(n \<mapsto> ImageBuf a, Suc n \<mapsto> ImageBuf scaled),
                          next_free := Suc (Suc n)\<rparr>"
  define view where "view = Slice (Buf (Suc n)) (ndim scaled = 3) h_offset (h_offset + crop_height)
                              w_offset (w_offset + crop_width)"
  have wf2: "wf_store s2" using wf by (simp add: s2_def wf_store_def n_def)
  have same2: "\<forall>q < next_free s. heap s2 q = heap s q" by (simp add: s2_def n_def)
  have scale_run: "np_copy r s = (Inr (Buf n), s\<lparr>heap := (heap s)(n \<mapsto> ImageBuf a), next_free := Suc n\<rparr>)"
    by (simp add: np_copy_def bindS_def R alloc_def returnS_def n_def)
  have resc_run: "lift_rescale f (Buf n) scale_factor (if ndim a = 3 then Some 2 else None)
      (s\<lparr>heap := (heap s)(n \<mapsto> ImageBuf a), next_free := Suc n\<rparr>) = (Inr (Buf (Suc n)), s2)"
    by (simp add: lift_rescale_def bindS_def read_buf_def returnS_def liftS_def S(2) alloc_def s2_def)
  have read_scaled: "read_array (Buf (Suc n)) s2 = (Inr scaled, s2)"
    by (simp add: bindS_def read_buf_def returnS_def s2_def)
  have read_view: "read_array view s2 = (Inr c, s2)"
    using ix unfolding view_def read_array.simps(2)
    by (auto simp add: bindS_def read_scaled liftS_def simp del: read_array.simps)
  have crop_run: "crop_img_st (Buf (Suc n)) crop_size h_offset w_offset s2 = (Inr (Some view), s2)"
    using ix
    by (auto simp add: crop_img_st_def bindS_def read_scaled hw returnS_def view_def
        simp del: read_array.simps)
  have small_run: "smaller_than_crop_st (Some view) crop_height crop_width s2 = (Inr small, s2)"
    using S(4)
    by (simp add: smaller_than_crop_st_def bindS_def read_view liftS_def c
        del: read_array.simps)
  have dbg: "debug_save_st imsave False debug_root name x = returnS ()" for name x
    by (simp add: debug_save_st_def)
  have scale_step: "(if ndim a = 3 then
                   bindS (np_copy r) (\<lambda>c. lift_rescale f c scale_factor (Some 2))
                 else if ndim a = 2 then
                   bindS (np_copy r) (\<lambda>c. lift_rescale f c scale_factor None)
                 else raiseS (RuntimeError ''invalid input image dimension num'')) s =
      (Inr (Buf (Suc n)), s2)"
    using S(1) scale_run resc_run by (auto simp add: bindS_def)
  have front: "scale_crop_image_st (lift_rescale f) imsave (Some r) crop_size h_offset w_offset
                    scale_factor False debug_root s =
      bindS (if small then pad_width_or_height_st (Some view) crop_width crop_height 0
             else returnS (Some view, 0, 0, 0, 0)) (\<lambda>res. returnS res) s2"
  proof -
    have b1: "bindS (read_array r) g s = g a s" for g :: "'a ndarray \<Rightarrow> ('a, 'r) prog"
      using R by (rule bindS_eq [where f = g])
    have b2: "bindS (if ndim a = 3 then
                   bindS (np_copy r) (\<lambda>c. lift_rescale f c scale_factor (Some 2))
                 else if ndim a = 2 then
                   bindS (np_copy r) (\<lambda>c. lift_rescale f c scale_factor None)
                 else raiseS (RuntimeError ''invalid input image dimension num'')) g s =
              g (Buf (Suc n)) s2" for g :: "aref \<Rightarrow> ('a, 'r) prog"
      using scale_step by (rule bindS_eq [where f = g])
    have b3: "bindS (crop_img_st (Buf (Suc n)) crop_size h_offset w_offset) g s2 =
              g (Some view) s2" for g :: "aref option \<Rightarrow> ('a, 'r) prog"
      using crop_run by (rule bindS_eq [where f = g])
    have b4: "bindS (smaller_than_crop_st (Some view) crop_height crop_width) g s2 = g small s2"
      for g :: "bool \<Rightarrow> ('a, 'r) prog"
      using small_run by (rule bindS_eq [where f = g])
    show ?thesis
      unfolding scale_crop_image_st_def option.case
      by (simp only: b1 hw prod.case dbg bindS_returnS b2 b3 b4)
  qed
  show ?thesis
  proof (cases small)
    case False
    with S(5) c have "out = c" "p_top = 0" "p_bottom = 0" "p_left = 0" "p_right = 0" by simp_all
    with front False read_view wf2 same2 show ?thesis
      by (auto simp add: bindS_def returnS_def)
  next
    case True
    with S(5) c have pad: "pad_width_or_height (NDArray c) crop_width crop_height 0 True =
          Inr (PaddedOffsets (NDArray out) p_top p_bottom p_left p_right)" by simp
    define s3 where "s3 = s2\<lparr>heap := (heap s2)(Suc (Suc n) \<mapsto> ImageBuf out),
                          next_free := Suc (Suc (Suc n))\<rparr>"
    have "pad_width_or_height_st (Some view) crop_width crop_height 0 s2 =
        (Inr (Some (Buf (Suc (Suc n))), p_top, p_bottom, p_left, p_right), s3)"
    proof -
      have b5: "bindS (read_array view) g s2 = g c s2" for g :: "'a ndarray \<Rightarrow> ('a, 'r) prog"
        using read_view by (rule bindS_eq [where f = g])
      have "pad_width_or_height_st (Some view) crop_width crop_height 0 s2 =
          bindS (alloc (ImageBuf out)) (\<lambda>p.
            returnS (Some (Buf p), p_top, p_bottom, p_left, p_right)) s2"
        unfolding pad_width_or_height_st_def option.case
        by (simp only: b5 pad bindS_liftS_Inr pad_result.case pyobj.case)
      then show ?thesis
        by (simp add: bindS_def alloc_def returnS_def s3_def s2_def)
    qed
    moreover have "fst (read_array (Buf (Suc (Suc n))) s3) = Inr out"
      by (simp add: bindS_def read_buf_def returnS_def s3_def)
    moreover have "wf_store s3" using wf by (simp add: s3_def s2_def wf_store_def n_def)
    moreover have "\<forall>q < next_free s. heap s3 q = heap s q" by (simp add: s3_def s2_def n_def)
    ultimately show ?thesis using front True by (auto simp add: bindS_def returnS_def)
  qed
qed

lemma scale_crop_image_NDArray:
  assumes run: "scale_crop_image rescale imsave img crop_size h_offset w_offset scale_factor
             debug debug_root = Inr (out, p_top, p_bottom, p_left, p_right)"
  shows "\<exists>arr. out = NDArray arr"
proof -
  obtain crop_height crop_width where hw: "crop_hw crop_size = (crop_height, crop_width)"
    by (cases "crop_hw crop_size")
  from scale_crop_image_InrD [OF run hw] obtain scaled cropped small where S:
    "crop_img (NDArray scaled) crop_size h_offset w_offset = Inr cropped"
    "smaller_than_crop cropped crop_height crop_width = Inr small"
    "if small then
        pad_width_or_height cropped crop_width crop_height 0 True =
          Inr (PaddedOffsets out p_top p_bottom p_left p_right)
      else out = cropped \<and> p_top = 0 \<and> p_bottom = 0 \<and> p_left = 0 \<and> p_right = 0"
    by blast
  from S(2) have "cropped \<noteq> PyNone" by (auto simp add: smaller_than_crop_def shape_at_def)
  with crop_img_ndarray [OF S(1) hw] obtain c where c: "cropped = NDArray c"
    "ndim c = 2 \<or> ndim c = 3"
    by auto
  show ?thesis
  proof (cases small)
    case False
    with S(3) c show ?thesis by simp
  next
    case True
    from c(2) have img: "is_image cropped" unfolding c(1) by (cases c) simp_all
    then obtain height width wc where ds: "data_size cropped = Inr (Some (height, width, wc))"
      using is_image_data_size by blast
    from True S(3) have padded: "pad_width_or_height cropped crop_width crop_height 0 True =
        Inr (PaddedOffsets out p_top p_bottom p_left p_right)"
      by simp
    from pad_InrD [OF padded ds] obtain pl pr pt pb where
      lr: "pad_split width crop_width = Inr (pl, pr)" and
      tb: "pad_split height crop_height = Inr (pt, pb)"
      by blast
    from pad_image_result [OF img ds lr tb, of 0] True S(3) c(1) show ?thesis by auto
  qed
qed

text \<open>
  The two models agree: with a \<open>rescale\<close> that computes its result from the array it
  is handed, a run of the functional model that returns is matched by the run on the
  store, whose references read the returned image and the returned intrinsic.
\<close>

lemma scale_crop_st_refines:
  assumes wf: "wf_store s" and img: "fst (read_array r s) = Inr a"
    and K: "rel_option (\<lambda>k m. heap s k = Some (MatrixBuf m)) K Kv"
    and pure: "scale_crop np_dot f imsave0 (NDArray a) crop_size h_offset w_offset scale_factor Kv
                 False debug_root = Inr res"
  shows "\<exists>ro ko s' out.
     scale_crop_st np_dot (lift_rescale f) imsave (Some r) crop_size h_offset w_offset scale_factor K
       False debug_root s = (Inr (Some ro, ko), s') \<and>
     result_image res = NDArray out \<and> fst (read_array ro s') = Inr out \<and>
     (case res of
        ImageOnly i \<Rightarrow> ko = None
      | ImageWithK i K_aug \<Rightarrow> \<exists>p. ko = Some p \<and> heap s' p = Some (MatrixBuf K_aug))"
proof -
  from scale_crop_InrD [OF pure] obtain p_top p_bottom p_left p_right where
    I: "scale_crop_image f imsave0 (NDArray a) crop_size h_offset w_offset scale_factor
          False debug_root = Inr (result_image res, p_top, p_bottom, p_left, p_right)"
    and Kres: "case Kv of
        None \<Rightarrow> res = ImageOnly (result_image res)
      | Some k \<Rightarrow> \<exists>K_aug. adjust_intrinsic np_dot k scale_factor h_offset w_offset p_left p_top = Inr K_aug \<and>
                    res = ImageWithK (result_image res) K_aug"
    by blast
  from scale_crop_image_NDArray [OF I] obtain out where out: "result_image res = NDArray out"
    by blast
  from scale_crop_image_st_result [OF wf img I [unfolded out], of imsave]
  obtain ro s1 where R:
    "scale_crop_image_st (lift_rescale f) imsave (Some r) crop_size h_offset w_offset
        scale_factor False debug_root s = (Inr (Some ro, p_top, p_bottom, p_left, p_right), s1)"
    "fst (read_array ro s1) = Inr out" "wf_store s1" "\<forall>q < next_free s. heap s1 q = heap s q"
    by blast
  show ?thesis
  proof (cases K)
    case None
    with K have "Kv = None" by simp
    with Kres have "res = ImageOnly (result_image res)" by simp
    then obtain i where "res = ImageOnly i" by metis
    with R(1,2) None out show ?thesis
      by (auto simp add: scale_crop_st_def bindS_def returnS_def)
  next
    case (Some k)
    with K obtain m where m: "Kv = Some m" "heap s k = Some (MatrixBuf m)"
      by (auto simp add: option_rel_Some1)
    with Kres obtain K_aug where A:
      "adjust_intrinsic np_dot m scale_factor h_offset w_offset p_left p_top = Inr K_aug"
      "res = ImageWithK (result_image res) K_aug"
      by auto
    from wf m(2) have "k < next_free s" by (rule allocated_below)
    with R(4) m(2) have k1: "heap s1 k = Some (MatrixBuf m)" by simp
    from adjust_intrinsic_st_result [OF R(3) k1 A(1)] obtain p s2 where P:
      "adjust_intrinsic_st np_dot k scale_factor h_offset w_offset p_left p_top s1 = (Inr p, s2)"
      "heap s2 p = Some (MatrixBuf K_aug)" "\<forall>q < next_free s1. heap s2 q = heap s1 q"
      by blast
    from read_array_frame [OF R(3) R(2) P(3)] have "fst (read_array ro s2) = Inr out" .
    moreover obtain i where "res = ImageWithK i K_aug" using A(2) by metis
    ultimately show ?thesis using R(1) P(1,2) Some out
      by (auto simp add: scale_crop_st_def bindS_def returnS_def)
  qed
qed

end
